theory Spec2Isabelle
  imports Main "HOL-Library.Multiset"
begin

section \<open>Data model\<close>

text \<open>
  The script \<^verbatim>\<open>votingbehavior.py\<close> is a straight-line pandas program. A cell of
  a table is a number, a string (the survey's region code) or the missing marker
  \<^verbatim>\<open>np.nan\<close>. The survey codes are integers, so a numeric cell carries an
  \<^typ>\<open>int\<close>; pandas compares numbers by value, whatever the column's dtype.
\<close>

datatype cell = Num int | Str string | NaN

text \<open>
  A DataFrame: the column labels in order, and the rows in order, each row holding one
  cell per column. The row labels of the index are not modelled; the order of the rows is.
\<close>

record dataframe =
  columns :: "string list"
  rows :: "cell list list"

text \<open>
  pandas raises \<^verbatim>\<open>KeyError\<close> for absent column labels; the labels are its payload.
  scipy raises \<^verbatim>\<open>ValueError\<close> for a contingency table it cannot test.
\<close>

datatype error = KeyError "string list" | ValueError

text \<open>
  A DataFrame is rectangular and, read by \<^verbatim>\<open>pd.read_csv\<close>, has distinct
  column labels.
\<close>

definition wf_dataframe :: "dataframe \<Rightarrow> bool" where
  "wf_dataframe df \<longleftrightarrow>
     distinct (columns df) \<and> (\<forall>r \<in> set (rows df). length r = length (columns df))"

text \<open>
  The cell of row \<open>r\<close> under the column label \<open>c\<close>. Where the row is shorter than
  the header the cell is missing, as \<^verbatim>\<open>pd.read_csv\<close> reads a short line.
\<close>

definition row_get :: "string list \<Rightarrow> cell list \<Rightarrow> string \<Rightarrow> cell" where
  "row_get cols r c = (case map_of (zip cols r) c of Some v \<Rightarrow> v | None \<Rightarrow> NaN)"

text \<open>Sequencing of fallible statements: the first exception aborts the run.\<close>

definition and_then :: "error + 'a \<Rightarrow> ('a \<Rightarrow> error + 'b) \<Rightarrow> error + 'b" where
  "and_then m f = (case m of Inl e \<Rightarrow> Inl e | Inr x \<Rightarrow> f x)"

section \<open>Column projection and rename (lines 64--97)\<close>

definition columns_to_keep :: "string list" where
  "columns_to_keep = [''agea'', ''gndr'', ''eisced'', ''hinctnta'', ''region'', ''emplrel'',
                      ''mbtru'', ''polintr'', ''lrscale'', ''stfdem'', ''trstep'',
                      ''rlgdgr'', ''imwbcnt'', ''nwspol'', ''freehms'', ''eqpaybg'', ''prtvteit'']"

definition column_mapping :: "(string \<times> string) list" where
  "column_mapping =
    [(''agea'', ''Age''),
     (''gndr'', ''Gender''),
     (''eisced'', ''EducationLevel''),
     (''hinctnta'', ''HouseholdIncome''),
     (''region'', ''Region''),
     (''emplrel'', ''EmploymentStatus''),
     (''mbtru'', ''TradeUnionMember''),
     (''polintr'', ''PoliticalInterest''),
     (''lrscale'', ''LeftRightScale''),
     (''stfdem'', ''SatisfactionDemocracy''),
     (''trstep'', ''TrustEP''),
     (''rlgdgr'', ''Religion''),
     (''imwbcnt'', ''AttitudesTowardImmigration''),
     (''freehms'', ''AttitudeTowardLGBT''),
     (''nwspol'', ''MediaConsumption''),
     (''eqpaybg'', ''ZeroPayGapOpinion''),
     (''prtvteit'', ''VotedParty'')]"

text \<open>
  \<^verbatim>\<open>df[keep]\<close> with a list of labels: a new table of those columns in the listed
  order, or \<^verbatim>\<open>KeyError\<close> naming the absent labels.
\<close>

definition getitem_columns :: "string list \<Rightarrow> dataframe \<Rightarrow> error + dataframe" where
  "getitem_columns keep df =
     (if set keep \<subseteq> set (columns df)
      then Inr \<lparr>columns = keep,
                rows = map (\<lambda>r. map (row_get (columns df) r) keep) (rows df)\<rparr>
      else Inl (KeyError (filter (\<lambda>c. c \<notin> set (columns df)) keep)))"

text \<open>\<^verbatim>\<open>df.rename(columns=m)\<close>: a label absent from \<open>m\<close> is kept.\<close>

definition rename :: "(string \<times> string) list \<Rightarrow> dataframe \<Rightarrow> dataframe" where
  "rename m df =
     df\<lparr>columns := map (\<lambda>c. case map_of m c of Some n \<Rightarrow> n | None \<Rightarrow> c) (columns df)\<rparr>"

definition project_rename :: "dataframe \<Rightarrow> error + dataframe" where
  "project_rename df =
     and_then (getitem_columns columns_to_keep df) (\<lambda>df_selected.
     Inr (rename column_mapping df_selected))"

section \<open>Coalition collapse (lines 126--145)\<close>

text \<open>Python's \<^verbatim>\<open>x in [..]\<close> on a list of integers: equality by value.\<close>

fun cell_in :: "cell \<Rightarrow> int list \<Rightarrow> bool" where
  "cell_in (Num v) vs = (v \<in> set vs)"
| "cell_in (Str s) vs = False"
| "cell_in NaN vs = False"

text \<open>\<^verbatim>\<open>Series.isin(values)\<close>, cell by cell.\<close>

fun isin :: "cell \<Rightarrow> int set \<Rightarrow> bool" where
  "isin (Num v) S = (v \<in> S)"
| "isin (Str s) S = False"
| "isin NaN S = False"

text \<open>\<^verbatim>\<open>set(range(1, 10)) - {9}\<close>\<close>

definition party_codes :: "int set" where
  "party_codes = {1..<10} - {9}"

text \<open>\<^verbatim>\<open>df[df[c].isin(S)]\<close> and \<^verbatim>\<open>df[~df[c].isin(S)]\<close>\<close>

definition filter_isin :: "string \<Rightarrow> int set \<Rightarrow> dataframe \<Rightarrow> error + dataframe" where
  "filter_isin c S df =
     (if c \<in> set (columns df)
      then Inr (df\<lparr>rows := filter (\<lambda>r. isin (row_get (columns df) r c) S) (rows df)\<rparr>)
      else Inl (KeyError [c]))"

definition filter_not_isin :: "string \<Rightarrow> int set \<Rightarrow> dataframe \<Rightarrow> error + dataframe" where
  "filter_not_isin c S df =
     (if c \<in> set (columns df)
      then Inr (df\<lparr>rows := filter (\<lambda>r. \<not> isin (row_get (columns df) r c) S) (rows df)\<rparr>)
      else Inl (KeyError [c]))"

text \<open>The coalition codes: 1 CSX, 2 M5S, 3 TerzoPolo, 4 CDX; \<open>None\<close> otherwise.\<close>

definition assign_target :: "cell \<Rightarrow> int option" where
  "assign_target VotedParty =
     (if cell_in VotedParty [2, 7, 8, 10] then Some 1
      else if cell_in VotedParty [1, 4, 5] then Some 4
      else if cell_in VotedParty [3] then Some 2
      else if cell_in VotedParty [6] then Some 3
      else None)"

text \<open>The entry of \<^verbatim>\<open>label_names\<close> for the coalition codes (line 250).\<close>

definition label_names_VotedCoalition :: "(int \<times> string) list" where
  "label_names_VotedCoalition = [(1, ''CSX''), (2, ''M5S''), (3, ''TerzoPolo''), (4, ''CDX'')]"

text \<open>A value returned to \<^verbatim>\<open>Series.apply\<close>: \<^verbatim>\<open>None\<close> becomes the missing marker.\<close>

fun series_value :: "int option \<Rightarrow> cell" where
  "series_value (Some k) = Num k"
| "series_value None = NaN"

text \<open>
  \<^verbatim>\<open>df[c] = vals\<close>: an existing column is overwritten in its place, a new one is
  appended as the last column.
\<close>

definition setitem :: "string \<Rightarrow> cell list \<Rightarrow> dataframe \<Rightarrow> dataframe" where
  "setitem c vals df =
     (if c \<in> set (columns df)
      then df\<lparr>rows := map (\<lambda>(r, v). map (\<lambda>(c', x). if c' = c then v else x)
                                        (zip (columns df) r))
                          (zip (rows df) vals)\<rparr>
      else \<lparr>columns = columns df @ [c],
            rows = map (\<lambda>(r, v). r @ [v]) (zip (rows df) vals)\<rparr>)"

text \<open>\<^verbatim>\<open>df['VotedCoalition'] = df['VotedParty'].apply(assign_target)\<close>\<close>

definition assign_coalition :: "dataframe \<Rightarrow> error + dataframe" where
  "assign_coalition df =
     (if ''VotedParty'' \<in> set (columns df)
      then Inr (setitem ''VotedCoalition''
                  (map (\<lambda>r. series_value (assign_target (row_get (columns df) r ''VotedParty'')))
                       (rows df)) df)
      else Inl (KeyError [''VotedParty'']))"

text \<open>\<^verbatim>\<open>df.dropna(subset=cs)\<close>\<close>

definition dropna :: "string list \<Rightarrow> dataframe \<Rightarrow> error + dataframe" where
  "dropna subset_cols df =
     (if set subset_cols \<subseteq> set (columns df)
      then Inr (df\<lparr>rows := filter (\<lambda>r. \<forall>c \<in> set subset_cols. row_get (columns df) r c \<noteq> NaN)
                                   (rows df)\<rparr>)
      else Inl (KeyError (filter (\<lambda>c. c \<notin> set (columns df)) subset_cols)))"

definition coalition_collapse :: "dataframe \<Rightarrow> error + dataframe" where
  "coalition_collapse df_selected =
     and_then (filter_isin ''VotedParty'' party_codes df_selected) (\<lambda>df1.
     and_then (assign_coalition df1) (\<lambda>df2.
     dropna [''VotedCoalition''] df2))"

section \<open>Exclusion rules (lines 162--180)\<close>

text \<open>The dictionary in its insertion order, which is the order of \<^verbatim>\<open>.items()\<close>.\<close>

definition exclusion_rules :: "(string \<times> int list) list" where
  "exclusion_rules =
    [(''VotedParty'', [66, 77, 88, 99]),
     (''ZeroPayGapOpinion'', [7, 8, 9]),
     (''MediaConsumption'', [7777, 8888, 9999]),
     (''AttitudeTowardLGBT'', [7, 8, 9]),
     (''EducationLevel'', [0, 55, 77, 88, 99]),
     (''Age'', [999]),
     (''Religion'', [77, 88, 99]),
     (''TrustEP'', [77, 88, 99]),
     (''AttitudesTowardImmigration'', [77, 88, 99]),
     (''Gender'', [9]),
     (''HouseholdIncome'', [77, 88, 99]),
     (''EmploymentStatus'', [7, 8, 9]),
     (''TradeUnionMember'', [7, 8, 9]),
     (''PoliticalInterest'', [7, 8, 9]),
     (''LeftRightScale'', [77, 88, 99]),
     (''SatisfactionDemocracy'', [77, 88, 99]),
     (''Region'', [99999])]"

section \<open>Sentinel-to-missing translation (lines 183--185)\<close>

text \<open>
  The column dtype is read off the cells: a column whose cells are all numbers is held as
  \<^verbatim>\<open>int64\<close>. Such a column cannot hold \<^verbatim>\<open>np.nan\<close>, so a replacement that
  writes the missing marker into it first casts the column to \<^verbatim>\<open>float64\<close>. The cast
  rounds an integer to 53 significant bits, to the nearest and on a tie to the even one.
  A column that holds a missing marker is \<^verbatim>\<open>float64\<close> already and a column that
  holds a string holds objects; there the replacement casts nothing. A
  \<^verbatim>\<open>float64\<close> column whose missing cells have all been filtered away holds
  \<^verbatim>\<open>float64\<close> values only, which the cast leaves as they are.
\<close>

function bitlen :: "int \<Rightarrow> nat" where
  "bitlen a = (if a \<le> 0 then 0 else Suc (bitlen (a div 2)))"
  by auto
termination
  by (relation "measure nat") auto

declare bitlen.simps [simp del]

definition float64 :: "int \<Rightarrow> int" where
  "float64 v =
     (let a = \<bar>v\<bar>;
          shift = bitlen a - 53;
          q = a div 2 ^ shift;
          rem = a mod 2 ^ shift;
          q' = (if 2 * rem > 2 ^ shift \<or> (2 * rem = 2 ^ shift \<and> odd q) then q + 1 else q)
      in sgn v * (q' * 2 ^ shift))"

fun as_float64 :: "cell \<Rightarrow> cell" where
  "as_float64 (Num v) = Num (float64 v)"
| "as_float64 x = x"

fun is_num :: "cell \<Rightarrow> bool" where
  "is_num (Num v) = True"
| "is_num x = False"

text \<open>The Series \<^verbatim>\<open>df[c]\<close> of a column that is present.\<close>

definition column_values :: "string \<Rightarrow> dataframe \<Rightarrow> cell list" where
  "column_values c df = map (\<lambda>r. row_get (columns df) r c) (rows df)"

text \<open>The replacement casts the Series: it is an integer Series and some cell matches.\<close>

definition upcasts :: "int list \<Rightarrow> cell list \<Rightarrow> bool" where
  "upcasts missing_values xs \<longleftrightarrow>
     (\<forall>x \<in> set xs. is_num x) \<and> (\<exists>x \<in> set xs. isin x (set missing_values))"

definition replace_value :: "bool \<Rightarrow> int list \<Rightarrow> cell \<Rightarrow> cell" where
  "replace_value cast missing_values x =
     (if isin x (set missing_values) then NaN else if cast then as_float64 x else x)"

text \<open>\<^verbatim>\<open>Series.replace(missing_values, np.nan)\<close>\<close>

definition replace_values :: "int list \<Rightarrow> cell list \<Rightarrow> cell list" where
  "replace_values missing_values xs =
     map (replace_value (upcasts missing_values xs) missing_values) xs"

text \<open>\<^verbatim>\<open>df[column] = df[column].replace(missing_values, np.nan)\<close>\<close>

definition replace_column :: "string \<Rightarrow> int list \<Rightarrow> dataframe \<Rightarrow> error + dataframe" where
  "replace_column column missing_values df =
     (if column \<in> set (columns df)
      then Inr (setitem column (replace_values missing_values (column_values column df)) df)
      else Inl (KeyError [column]))"

text \<open>
  The statements that decide whether the input table is mutated work on objects: the
  variables \<^verbatim>\<open>df_selected\<close> and \<^verbatim>\<open>df_missing\<close> hold references. The
  store lists the DataFrame objects, an address is a position in it, and
  \<^verbatim>\<open>.copy()\<close> allocates a new object at the end.
\<close>

type_synonym addr = nat
type_synonym store = "dataframe list"

definition copy :: "addr \<Rightarrow> store \<Rightarrow> addr \<times> store" where
  "copy a s = (length s, s @ [s ! a])"

text \<open>The column assignment of line 185 writes into the object at address \<open>a\<close>.\<close>

definition replace_inplace :: "addr \<Rightarrow> string \<Rightarrow> int list \<Rightarrow> store \<Rightarrow> error + store" where
  "replace_inplace a column missing_values s =
     and_then (replace_column column missing_values (s ! a)) (\<lambda>df'. Inr (s[a := df']))"

fun replace_loop :: "(string \<times> int list) list \<Rightarrow> addr \<Rightarrow> store \<Rightarrow> error + store" where
  "replace_loop [] a s = Inr s"
| "replace_loop ((column, missing_values) # rules) a s =
     and_then (replace_inplace a column missing_values s) (\<lambda>s'. replace_loop rules a s')"

text \<open>
  Lines 183--185: \<open>a\<close> is the object \<^verbatim>\<open>df_selected\<close> refers to; the result is the
  address of \<^verbatim>\<open>df_missing\<close> and the store after the loop.
\<close>

definition sentinel_translation ::
  "(string \<times> int list) list \<Rightarrow> addr \<Rightarrow> store \<Rightarrow> error + (addr \<times> store)" where
  "sentinel_translation rules a s =
     (case copy a s of (df_missing, s1) \<Rightarrow>
        and_then (replace_loop rules df_missing s1) (\<lambda>s2. Inr (df_missing, s2)))"

section \<open>Completeness filter (lines 224--229)\<close>

text \<open>
  One pass of the loop per rule; each pass prints the column and the number of rows
  left, which is the entry of the report.
\<close>

fun completeness_filter ::
  "(string \<times> int list) list \<Rightarrow> dataframe \<Rightarrow> error + (dataframe \<times> (string \<times> nat) list)" where
  "completeness_filter [] df_selected = Inr (df_selected, [])"
| "completeness_filter ((column, values_to_exclude) # rules) df_selected =
     and_then (filter_not_isin column (set values_to_exclude) df_selected) (\<lambda>df'.
     and_then (completeness_filter rules df') (\<lambda>(df_filtered, report).
     Inr (df_filtered, (column, length (rows df')) # report)))"

section \<open>Missingness diagnostics (lines 187--219)\<close>

text \<open>
  The diagnostics print rates and a chi-square test and assign nothing the later statements
  read; what matters downstream is whether they raise. The indicator table, the grouped
  means and their sorting (lines 188--204) are computed for any table. The test of lines
  210--213 is not: \<^verbatim>\<open>chi2_contingency\<close> refuses a table without cells and a table
  with an expected frequency of zero.
\<close>

definition getitem_column :: "string \<Rightarrow> dataframe \<Rightarrow> error + cell list" where
  "getitem_column c df =
     (if c \<in> set (columns df) then Inr (column_values c df) else Inl (KeyError [c]))"

text \<open>
  \<^verbatim>\<open>pd.crosstab(index, columns)\<close>: the observations missing in \<open>columns\<close> are
  dropped, and the table has one row per value observed in \<open>index\<close>, one column per
  value observed in \<open>columns\<close> and the number of observations in each cell. pandas
  sorts the values; the order is of no consequence to the test.
\<close>

definition crosstab :: "bool list \<Rightarrow> cell list \<Rightarrow> nat list list" where
  "crosstab index cols =
     (let observations = filter (\<lambda>(i, c). c \<noteq> NaN) (zip index cols);
          row_keys = remdups (map fst observations);
          col_keys = remdups (map snd observations)
      in map (\<lambda>k. map (\<lambda>c. count_list observations (k, c)) col_keys) row_keys)"

text \<open>
  The expected frequency of a cell is the product of its row sum and its column sum,
  divided by the total; it is zero exactly when the product is.
\<close>

definition expected_products :: "nat list list \<Rightarrow> nat list list" where
  "expected_products observed =
     map (\<lambda>row. map (\<lambda>j. sum_list row * sum_list (map (\<lambda>r. r ! j) observed))
                      [0..<length row])
         observed"

text \<open>The statistic, p-value and expected table are floating-point numbers and only printed.\<close>

definition chi2_contingency :: "nat list list \<Rightarrow> error + unit" where
  "chi2_contingency observed =
     (if concat observed = [] then Inl ValueError
      else if 0 \<in> set (concat (expected_products observed)) then Inl ValueError
      else Inr ())"

text \<open>
  Lines 183--213 on the table \<^verbatim>\<open>df_selected\<close>, alone in its store at address 0.
\<close>

definition missingness_diagnostics :: "dataframe \<Rightarrow> error + unit" where
  "missingness_diagnostics df_selected =
     and_then (sentinel_translation exclusion_rules 0 [df_selected]) (\<lambda>(df_missing, s).
     and_then (getitem_column ''HouseholdIncome'' (s ! df_missing)) (\<lambda>income.
     and_then (getitem_column ''VotedCoalition'' (s ! df_missing)) (\<lambda>coalition.
     chi2_contingency (crosstab (map (\<lambda>x. x = NaN) income) coalition))))"

section \<open>The data-wrangling pipeline (lines 64--229)\<close>

text \<open>
  The run of the script up to \<^verbatim>\<open>df_filtered\<close>, with the printed counts of the
  completeness filter. It raises where the projection or the diagnostics raise.
\<close>

definition clean_stages :: "dataframe \<Rightarrow> error + (dataframe \<times> (string \<times> nat) list)" where
  "clean_stages df_selected =
     and_then (coalition_collapse df_selected) (\<lambda>df_collapsed.
     and_then (missingness_diagnostics df_collapsed) (\<lambda>_.
     completeness_filter exclusion_rules df_collapsed))"

definition pipeline :: "dataframe \<Rightarrow> error + (dataframe \<times> (string \<times> nat) list)" where
  "pipeline df = and_then (project_rename df) clean_stages"

text \<open>The table as it stands after line 145, before the completeness filter.\<close>

definition collapsed :: "dataframe \<Rightarrow> error + dataframe" where
  "collapsed df = and_then (project_rename df) coalition_collapse"

section \<open>Notions used to state the properties\<close>

text \<open>The column labels after the rename.\<close>

definition renamed_columns :: "string list" where
  "renamed_columns = [''Age'', ''Gender'', ''EducationLevel'', ''HouseholdIncome'',
                      ''Region'', ''EmploymentStatus'', ''TradeUnionMember'',
                      ''PoliticalInterest'', ''LeftRightScale'',
                      ''SatisfactionDemocracy'', ''TrustEP'', ''Religion'',
                      ''AttitudesTowardImmigration'', ''MediaConsumption'',
                      ''AttitudeTowardLGBT'', ''ZeroPayGapOpinion'', ''VotedParty'']"

text \<open>The coalition a cell of the column \<^verbatim>\<open>VotedCoalition\<close> stands for, if any.\<close>

definition coalition_label :: "cell \<Rightarrow> string option" where
  "coalition_label x = (case x of Num k \<Rightarrow> map_of label_names_VotedCoalition k | _ \<Rightarrow> None)"

text \<open>The number of rows whose cell under \<open>c\<close> is one of the codes \<open>S\<close>.\<close>

definition count_isin :: "string \<Rightarrow> int set \<Rightarrow> dataframe \<Rightarrow> nat" where
  "count_isin c S df = length (filter (\<lambda>r. isin (row_get (columns df) r c) S) (rows df))"

text \<open>A row passes every rule: none of its tracked cells is a sentinel code.\<close>

definition keeps :: "(string \<times> int list) list \<Rightarrow> string list \<Rightarrow> cell list \<Rightarrow> bool" where
  "keeps rules cols r \<longleftrightarrow> (\<forall>(c, vs) \<in> set rules. \<not> isin (row_get cols r c) (set vs))"

text \<open>The table a run ends with, if it does not raise.\<close>

definition final_table :: "error + (dataframe \<times> (string \<times> nat) list) \<Rightarrow> dataframe option" where
  "final_table res = (case res of Inl e \<Rightarrow> None | Inr (df, report) \<Rightarrow> Some df)"

text \<open>A function applied to every cell of a row, given the cell's column label.\<close>

definition map_row :: "(string \<Rightarrow> cell \<Rightarrow> cell) \<Rightarrow> string list \<Rightarrow> cell list \<Rightarrow> cell list" where
  "map_row f cols r = map (\<lambda>(c, x). f c x) (zip cols r)"

text \<open>
  What the loop of line 185 makes of the cell \<open>x\<close> of column \<open>c\<close> of the table
  \<open>df\<close>, and of the whole table.
\<close>

definition loop_cell :: "(string \<times> int list) list \<Rightarrow> dataframe \<Rightarrow> string \<Rightarrow> cell \<Rightarrow> cell" where
  "loop_cell rules df c x =
     (case map_of rules c of
        Some missing_values \<Rightarrow>
          replace_value (upcasts missing_values (column_values c df)) missing_values x
      | None \<Rightarrow> x)"

definition loop_table :: "(string \<times> int list) list \<Rightarrow> dataframe \<Rightarrow> dataframe" where
  "loop_table rules df = df\<lparr>rows := map (map_row (loop_cell rules df) (columns df)) (rows df)\<rparr>"

text \<open>A cell that \<^verbatim>\<open>float64\<close> holds as it is.\<close>

fun float64_exact :: "cell \<Rightarrow> bool" where
  "float64_exact (Num v) = (\<bar>v\<bar> \<le> 2 ^ 53)"
| "float64_exact x = True"

text \<open>
  The cell \<open>y\<close> is a translation of the cell \<open>x\<close> of column \<open>c\<close>: a sentinel
  code of a listed column has become the missing marker; any other cell is kept, except
  that an integer which \<^verbatim>\<open>float64\<close> does not hold may have been rounded to it.
\<close>

definition cell_translated :: "(string \<times> int list) list \<Rightarrow> string \<Rightarrow> cell \<Rightarrow> cell \<Rightarrow> bool" where
  "cell_translated rules c x y \<longleftrightarrow>
     (case map_of rules c of
        None \<Rightarrow> y = x
      | Some codes \<Rightarrow>
          if x \<in> Num ` set codes then y = NaN
          else (y = x \<or> y = as_float64 x) \<and> (float64_exact x \<longrightarrow> y = x))"

section \<open>Sample tables\<close>

text \<open>
  A respondent's row of the raw file, with the cells of the columns \<^verbatim>\<open>idno\<close>,
  \<^verbatim>\<open>hinctnta\<close> and \<^verbatim>\<open>prtvteit\<close> left open.
\<close>

definition example_row :: "int \<Rightarrow> int \<Rightarrow> int \<Rightarrow> cell list" where
  "example_row idno hinctnta prtvteit =
     [Num idno, Num 40, Num 1, Num 4, Num hinctnta, Str ''ITC4'', Num 1, Num 3, Num 2, Num 5,
      Num 6, Num 5, Num 5, Num 5, Num 60, Num 2, Num 5, Num prtvteit]"

definition example_raw :: dataframe where
  "example_raw =
     \<lparr>columns = ''idno'' # columns_to_keep,
      rows = [example_row 1 5 3, example_row 2 77 1, example_row 3 5 66, example_row 4 5 10]\<rparr>"

definition example_collapsed :: dataframe where
  "example_collapsed =
     \<lparr>columns = renamed_columns @ [''VotedCoalition''],
      rows = [tl (example_row 1 5 3) @ [Num 2], tl (example_row 2 77 1) @ [Num 4]]\<rparr>"

definition example_clean :: dataframe where
  "example_clean =
     \<lparr>columns = renamed_columns @ [''VotedCoalition''],
      rows = [tl (example_row 1 5 3) @ [Num 2]]\<rparr>"

definition example_report :: "(string \<times> nat) list" where
  "example_report =
     [(''VotedParty'', 2), (''ZeroPayGapOpinion'', 2), (''MediaConsumption'', 2),
      (''AttitudeTowardLGBT'', 2), (''EducationLevel'', 2), (''Age'', 2), (''Religion'', 2),
      (''TrustEP'', 2), (''AttitudesTowardImmigration'', 2), (''Gender'', 2),
      (''HouseholdIncome'', 1), (''EmploymentStatus'', 1), (''TradeUnionMember'', 1),
      (''PoliticalInterest'', 1), (''LeftRightScale'', 1), (''SatisfactionDemocracy'', 1),
      (''Region'', 1)]"

text \<open>The sample after the collapse, with its sentinel code replaced by the missing marker.\<close>

definition example_missing :: dataframe where
  "example_missing =
     \<lparr>columns = renamed_columns @ [''VotedCoalition''],
      rows = [tl (example_row 1 5 3) @ [Num 2],
              [Num 40, Num 1, Num 4, NaN, Str ''ITC4'', Num 1, Num 3, Num 2, Num 5,
               Num 6, Num 5, Num 5, Num 5, Num 60, Num 2, Num 5, Num 1, Num 4]]\<rparr>"

text \<open>
  A table after the collapse whose column \<^verbatim>\<open>Age\<close> holds the sentinel 999 and an
  integer that \<^verbatim>\<open>float64\<close> does not hold, and its translation.
\<close>

definition age_row :: "cell \<Rightarrow> cell list" where
  "age_row age = age # tl (tl (example_row 1 5 3)) @ [Num 2]"

definition example_age :: dataframe where
  "example_age =
     \<lparr>columns = renamed_columns @ [''VotedCoalition''],
      rows = [age_row (Num 999), age_row (Num 9007199254740993), age_row (Num 40)]\<rparr>"

definition example_age_missing :: dataframe where
  "example_age_missing =
     \<lparr>columns = renamed_columns @ [''VotedCoalition''],
      rows = [age_row NaN, age_row (Num 9007199254740992), age_row (Num 40)]\<rparr>"

text \<open>One respondent whose voted-party code is the sentinel 66.\<close>

definition example_sentinel_raw :: dataframe where
  "example_sentinel_raw = \<lparr>columns = ''idno'' # columns_to_keep, rows = [example_row 3 5 66]\<rparr>"

text \<open>A raw file without the column \<^verbatim>\<open>prtvteit\<close>.\<close>

definition example_no_party :: dataframe where
  "example_no_party = \<lparr>columns = butlast columns_to_keep, rows = []\<rparr>"

text \<open>One respondent who voted for party 1 and gave no household income (code 77).\<close>

definition example_income_raw :: dataframe where
  "example_income_raw = \<lparr>columns = ''idno'' # columns_to_keep, rows = [example_row 2 77 1]\<rparr>"

definition example_income_collapsed :: dataframe where
  "example_income_collapsed =
     \<lparr>columns = renamed_columns @ [''VotedCoalition''],
      rows = [tl (example_row 2 77 1) @ [Num 4]]\<rparr>"

definition example_income_report :: "(string \<times> nat) list" where
  "example_income_report =
     [(''VotedParty'', 1), (''ZeroPayGapOpinion'', 1), (''MediaConsumption'', 1),
      (''AttitudeTowardLGBT'', 1), (''EducationLevel'', 1), (''Age'', 1), (''Religion'', 1),
      (''TrustEP'', 1), (''AttitudesTowardImmigration'', 1), (''Gender'', 1),
      (''HouseholdIncome'', 0), (''EmploymentStatus'', 0), (''TradeUnionMember'', 0),
      (''PoliticalInterest'', 0), (''LeftRightScale'', 0), (''SatisfactionDemocracy'', 0),
      (''Region'', 0)]"

text \<open>
  A raw file of 1000 respondents: 50 with the voted-party code 66, 10 with the code 9 and
  940 with the code \<open>other\<close>.
\<close>

definition scenario_table :: "int \<Rightarrow> dataframe" where
  "scenario_table other =
     \<lparr>columns = columns_to_keep,
      rows = replicate 50 (tl (example_row 0 5 66)) @ replicate 10 (tl (example_row 0 5 9)) @
             replicate 940 (tl (example_row 0 5 other))\<rparr>"

section \<open>Basic facts\<close>

lemma and_then_simps [simp]:
  "and_then (Inl e) f = Inl e" "and_then (Inr x) f = f x"
  by (simp_all add: and_then_def)

lemma and_then_eq_Inr: "and_then m f = Inr y \<longleftrightarrow> (\<exists>x. m = Inr x \<and> f x = Inr y)"
  by (cases m) simp_all

lemma keeps_Nil [simp]: "keeps [] cols r" by (simp add: keeps_def)
lemma keeps_Cons [simp]: "keeps ((c, vs) # rules) cols r \<longleftrightarrow> \<not> isin (row_get cols r c) (set vs) \<and> keeps rules cols r"
  by (simp add: keeps_def)

lemma completeness_filter_Inr:
  "completeness_filter rules df = Inr (out, rep) \<Longrightarrow>
     out = df\<lparr>rows := filter (keeps rules (columns df)) (rows df)\<rparr> \<and> fst ` set rules \<subseteq> set (columns df)
     \<and> map fst rep = map fst rules"
proof (induction rules arbitrary: df out rep)
  case Nil
  then show ?case by simp
next
  case (Cons rule rules)
  obtain c vs where rule: "rule = (c, vs)" by (cases rule)
  from Cons.prems obtain df' out' rep' where
    1: "filter_not_isin c (set vs) df = Inr df'" and
    2: "completeness_filter rules df' = Inr (out', rep')" and
    3: "out = out'" "rep = (c, length (rows df')) # rep'"
    by (auto simp: rule and_then_eq_Inr)
  from 1 have c: "c \<in> set (columns df)"
    and df': "df' = df\<lparr>rows := filter (\<lambda>r. \<not> isin (row_get (columns df) r c) (set vs)) (rows df)\<rparr>"
    by (auto simp: filter_not_isin_def split: if_splits)
  from Cons.IH[OF 2] df' c 3 show ?case
    by (auto simp: rule conj_commute cong: filter_cong)
qed

lemma completeness_filter_total:
  "fst ` set rules \<subseteq> set (columns df) \<Longrightarrow> \<exists>out rep. completeness_filter rules df = Inr (out, rep)"
proof (induction rules arbitrary: df)
  case Nil
  then show ?case by simp
next
  case (Cons rule rules)
  obtain c vs where rule: "rule = (c, vs)" by (cases rule)
  let ?df' = "df\<lparr>rows := filter (\<lambda>r. \<not> isin (row_get (columns df) r c) (set vs)) (rows df)\<rparr>"
  from Cons.prems have 1: "filter_not_isin c (set vs) df = Inr ?df'"
    by (simp add: rule filter_not_isin_def)
  from Cons.prems have "fst ` set rules \<subseteq> set (columns ?df')" by simp
  from Cons.IH[OF this] obtain out rep where "completeness_filter rules ?df' = Inr (out, rep)" by blast
  with 1 show ?case by (simp add: rule)
qed

lemma completeness_filter_fails:
  "\<not> fst ` set rules \<subseteq> set (columns df) \<Longrightarrow> \<exists>e. completeness_filter rules df = Inl e"
  using completeness_filter_Inr[of rules df]
  by (cases "completeness_filter rules df") auto

lemma rename_columns_to_keep:
  "map (\<lambda>c. case map_of column_mapping c of Some n \<Rightarrow> n | None \<Rightarrow> c) columns_to_keep = renamed_columns"
  by (simp add: column_mapping_def columns_to_keep_def renamed_columns_def)

lemma project_rename_Inr:
  "set columns_to_keep \<subseteq> set (columns df) \<Longrightarrow>
   project_rename df = Inr \<lparr>columns = renamed_columns,
       rows = map (\<lambda>r. map (row_get (columns df) r) columns_to_keep) (rows df)\<rparr>"
  by (simp add: project_rename_def getitem_columns_def rename_def rename_columns_to_keep)

lemma project_rename_Inl:
  "\<not> set columns_to_keep \<subseteq> set (columns df) \<Longrightarrow>
   project_rename df = Inl (KeyError (filter (\<lambda>c. c \<notin> set (columns df)) columns_to_keep))"
  by (simp add: project_rename_def getitem_columns_def)

lemma length_columns_to_keep: "length columns_to_keep = 17"
  by (simp add: columns_to_keep_def)

lemma length_renamed_columns: "length renamed_columns = 17"
  by (simp add: renamed_columns_def)

lemma distinct_renamed_columns: "distinct renamed_columns"
  by (simp add: renamed_columns_def)

lemma project_rename_wf:
  "project_rename df = Inr d \<Longrightarrow> wf_dataframe d \<and> columns d = renamed_columns"
  by (cases "set columns_to_keep \<subseteq> set (columns df)")
     (auto simp: project_rename_Inr project_rename_Inl wf_dataframe_def
        distinct_renamed_columns length_renamed_columns length_columns_to_keep)

lemma map_of_zip_None: "c \<notin> set cols \<Longrightarrow> map_of (zip cols r) c = None"
  by (auto simp: map_of_eq_None_iff dest: set_zip_leftD)

lemma map_of_snoc:
  "map_of (xs @ [(c, v)]) c' =
     (case map_of xs c' of Some x \<Rightarrow> Some x | None \<Rightarrow> if c' = c then Some v else None)"
  by (induction xs) auto

lemma map_of_zip_snoc:
  assumes "length r = length cols"
  shows "map_of (zip (cols @ [c]) (r @ [v])) c' =
     (case map_of (zip cols r) c' of Some x \<Rightarrow> Some x | None \<Rightarrow> if c' = c then Some v else None)"
proof -
  from assms have "zip (cols @ [c]) (r @ [v]) = zip cols r @ [(c, v)]" by simp
  then show ?thesis by (simp only: map_of_snoc)
qed

lemma row_get_snoc_new:
  assumes "length r = length cols" and "c \<notin> set cols"
  shows "row_get (cols @ [c]) (r @ [v]) c = v"
  unfolding row_get_def map_of_zip_snoc[OF assms(1)] map_of_zip_None[OF assms(2)] by simp

lemma row_get_snoc_old:
  assumes "length r = length cols" and "c' \<noteq> c"
  shows "row_get (cols @ [c]) (r @ [v]) c' = row_get cols r c'"
  unfolding row_get_def map_of_zip_snoc[OF assms(1)] using assms(2)
  by (cases "map_of (zip cols r) c'") simp_all

lemma row_get_mem:
  "distinct cols \<Longrightarrow> (c, x) \<in> set (zip cols r) \<Longrightarrow> row_get cols r c = x"
proof -
  assume d: "distinct cols" and m: "(c, x) \<in> set (zip cols r)"
  have "distinct (map fst (zip cols r))"
    using d by (simp add: map_fst_zip_take)
  from map_of_is_SomeI[OF this m] show ?thesis by (simp add: row_get_def)
qed

lemma zip_map_self: "zip xs (map f xs) = map (\<lambda>x. (x, f x)) xs"
  by (induction xs) simp_all

lemma length_map_row [simp]: "length (map_row f cols r) = min (length cols) (length r)"
  by (simp add: map_row_def)

lemma map_row_id:
  "length r = length cols \<Longrightarrow> (\<And>c x. (c, x) \<in> set (zip cols r) \<Longrightarrow> f c x = x) \<Longrightarrow> map_row f cols r = r"
proof -
  assume l: "length r = length cols" and f: "\<And>c x. (c, x) \<in> set (zip cols r) \<Longrightarrow> f c x = x"
  have "map_row f cols r = map snd (zip cols r)"
    unfolding map_row_def by (rule map_cong) (auto simp: f)
  with l show ?thesis by simp
qed

lemma map_row_comp:
  "length r = length cols \<Longrightarrow> map_row f cols (map_row g cols r) = map_row (\<lambda>c x. f c (g c x)) cols r"
  by (induction cols r rule: list_induct2') (simp_all add: map_row_def)

lemma map_row_cong:
  "(\<And>c x. (c, x) \<in> set (zip cols r) \<Longrightarrow> f c x = g c x) \<Longrightarrow> map_row f cols r = map_row g cols r"
  unfolding map_row_def by (rule map_cong) auto

lemma setitem_existing:
  "c \<in> set (columns df) \<Longrightarrow>
   setitem c (map f (rows df)) df = df\<lparr>rows := map (\<lambda>r. map_row (\<lambda>c' x. if c' = c then f r else x) (columns df) r) (rows df)\<rparr>"
  by (simp add: setitem_def zip_map_self map_row_def comp_def)

lemma setitem_new:
  "c \<notin> set (columns df) \<Longrightarrow>
   setitem c (map f (rows df)) df = \<lparr>columns = columns df @ [c], rows = map (\<lambda>r. r @ [f r]) (rows df)\<rparr>"
  by (simp add: setitem_def zip_map_self comp_def)

lemma isin_party_codes: "isin x party_codes \<longleftrightarrow> (\<exists>v. x = Num v \<and> 1 \<le> v \<and> v \<le> 8)"
  by (cases x) (auto simp: party_codes_def)

lemma assign_target_party_codes:
  "isin x party_codes \<Longrightarrow> series_value (assign_target x) \<in> {Num 1, Num 2, Num 3, Num 4}"
  by (auto simp: isin_party_codes assign_target_def)

lemma coalition_collapse_new:
  assumes wf: "wf_dataframe df" and vp: "''VotedParty'' \<in> set (columns df)"
    and vc: "''VotedCoalition'' \<notin> set (columns df)"
  shows "coalition_collapse df =
     Inr \<lparr>columns = columns df @ [''VotedCoalition''],
          rows = map (\<lambda>r. r @ [series_value (assign_target (row_get (columns df) r ''VotedParty''))])
                   (filter (\<lambda>r. isin (row_get (columns df) r ''VotedParty'') party_codes) (rows df))\<rparr>"
proof -
  let ?cols = "columns df"
  let ?kept = "filter (\<lambda>r. isin (row_get ?cols r ''VotedParty'') party_codes) (rows df)"
  let ?f = "\<lambda>r. series_value (assign_target (row_get ?cols r ''VotedParty''))"
  let ?df1 = "df\<lparr>rows := ?kept\<rparr>"
  let ?df2 = "\<lparr>columns = ?cols @ [''VotedCoalition''], rows = map (\<lambda>r. r @ [?f r]) ?kept\<rparr>"
  have 1: "filter_isin ''VotedParty'' party_codes df = Inr ?df1"
    using vp by (simp add: filter_isin_def)
  have "assign_coalition ?df1 = Inr (setitem ''VotedCoalition'' (map ?f (rows ?df1)) ?df1)"
    using vp by (simp add: assign_coalition_def)
  also have "setitem ''VotedCoalition'' (map ?f (rows ?df1)) ?df1 = ?df2"
    using vc by (subst setitem_new) simp_all
  finally have 2: "assign_coalition ?df1 = Inr ?df2" .
  have keep: "row_get (?cols @ [''VotedCoalition'']) (r @ [?f r]) ''VotedCoalition'' \<noteq> NaN"
    if "r \<in> set ?kept" for r
  proof -
    from that wf have len: "length r = length ?cols" by (simp add: wf_dataframe_def)
    from that have "isin (row_get ?cols r ''VotedParty'') party_codes" by simp
    from assign_target_party_codes[OF this] show ?thesis
      using row_get_snoc_new[OF len vc] by auto
  qed
  have "filter (\<lambda>r. \<forall>c \<in> set [''VotedCoalition'']. row_get (columns ?df2) r c \<noteq> NaN) (rows ?df2) = rows ?df2"
    by (rule filter_True) (auto simp: keep)
  then have 3: "dropna [''VotedCoalition''] ?df2 = Inr ?df2"
    by (simp add: dropna_def)
  show ?thesis
    unfolding coalition_collapse_def using 1 2 3 by simp
qed

section \<open>The cast and the translation loop\<close>

lemma bitlen_le: "a < 2 ^ k \<Longrightarrow> bitlen a \<le> k"
proof (induction k arbitrary: a)
  case 0
  then show ?case by (simp add: bitlen.simps)
next
  case (Suc k)
  show ?case
  proof (cases "a \<le> 0")
    case True
    then show ?thesis by (simp add: bitlen.simps)
  next
    case False
    from Suc.prems have "a div 2 < 2 ^ k" by simp
    from Suc.IH[OF this] False show ?thesis by (subst bitlen.simps) simp
  qed
qed

lemma float64_small:
  assumes "\<bar>v\<bar> \<le> 2 ^ 53"
  shows "float64 v = v"
proof -
  define shift where "shift = bitlen \<bar>v\<bar> - 53"
  have "\<bar>v\<bar> < 2 ^ 54" using assms by simp
  then have "bitlen \<bar>v\<bar> \<le> 54" by (rule bitlen_le)
  then have s1: "shift \<le> 1" by (simp add: shift_def)
  have rem: "\<bar>v\<bar> mod 2 ^ shift = 0"
  proof (cases "\<bar>v\<bar> < 2 ^ 53")
    case True
    then have "bitlen \<bar>v\<bar> \<le> 53" by (rule bitlen_le)
    then show ?thesis by (simp add: shift_def)
  next
    case False
    with assms have "\<bar>v\<bar> = 2 ^ 53" by simp
    moreover from s1 have "shift = 0 \<or> shift = 1" by auto
    ultimately show ?thesis by auto
  qed
  then have "\<bar>v\<bar> div 2 ^ shift * 2 ^ shift = \<bar>v\<bar>"
    using div_mult_mod_eq[of "\<bar>v\<bar>" "2 ^ shift"] by simp
  with rem have "float64 v = sgn v * \<bar>v\<bar>"
    by (simp add: float64_def Let_def shift_def[symmetric])
  then show ?thesis by (simp add: mult_sgn_abs)
qed

lemma as_float64_exact: "float64_exact x \<Longrightarrow> as_float64 x = x"
  by (cases x) (simp_all add: float64_small)

lemma map_of_zip_map_row:
  "map_of (zip cols (map (\<lambda>(c, x). f c x) (zip cols r))) c = map_option (f c) (map_of (zip cols r) c)"
  by (induction cols r rule: list_induct2') auto

lemma row_get_map_row:
  "row_get cols (map_row f cols r) c =
     (case map_of (zip cols r) c of Some x \<Rightarrow> f c x | None \<Rightarrow> NaN)"
  by (simp add: row_get_def map_row_def map_of_zip_map_row split: option.splits)

lemma row_get_map_row_other:
  "row_get cols (map_row (\<lambda>c' x. if c' = c then g x else x) cols r) c' =
     (if c' = c then (case map_of (zip cols r) c of Some x \<Rightarrow> g x | None \<Rightarrow> NaN) else row_get cols r c')"
  unfolding row_get_map_row by (auto simp: row_get_def split: option.splits)

lemma row_get_present:
  "length r = length cols \<Longrightarrow> c \<in> set cols \<Longrightarrow> map_of (zip cols r) c = Some (row_get cols r c)"
proof -
  assume l: "length r = length cols" and c: "c \<in> set cols"
  from l have "map fst (zip cols r) = cols" by simp
  then have "fst ` set (zip cols r) = set cols" by (metis set_map)
  with c have "map_of (zip cols r) c \<noteq> None" by (simp add: map_of_eq_None_iff)
  then show ?thesis by (auto simp: row_get_def)
qed

lemma replace_column_Inr:
  assumes wf: "wf_dataframe df" and c: "column \<in> set (columns df)"
  shows "replace_column column missing_values df =
     Inr (df\<lparr>rows := map (map_row (\<lambda>c x. if c = column
                                 then replace_value (upcasts missing_values (column_values column df))
                                        missing_values x
                                 else x)
                               (columns df)) (rows df)\<rparr>)"
proof -
  let ?g = "replace_value (upcasts missing_values (column_values column df)) missing_values"
  have "map_row (\<lambda>c' x. if c' = column then ?g (row_get (columns df) r column) else x) (columns df) r
      = map_row (\<lambda>c x. if c = column then ?g x else x) (columns df) r" for r
  proof (rule map_row_cong)
    fix c' x assume "(c', x) \<in> set (zip (columns df) r)"
    with wf have "row_get (columns df) r c' = x"
      by (auto simp: wf_dataframe_def intro: row_get_mem)
    then show "(if c' = column then ?g (row_get (columns df) r column) else x)
        = (if c' = column then ?g x else x)" by auto
  qed
  moreover have "replace_values missing_values (column_values column df)
      = map (\<lambda>r. ?g (row_get (columns df) r column)) (rows df)"
    by (simp add: replace_values_def column_values_def)
  ultimately show ?thesis using c
    by (simp add: replace_column_def setitem_existing)
qed

lemma wf_map_rows:
  "wf_dataframe df \<Longrightarrow> wf_dataframe (df\<lparr>rows := map (map_row f (columns df)) (rows df)\<rparr>)"
  by (auto simp: wf_dataframe_def)

lemma column_values_other:
  "c' \<noteq> c \<Longrightarrow>
   column_values c' (df\<lparr>rows := map (map_row (\<lambda>c'' x. if c'' = c then g x else x) (columns df)) (rows df)\<rparr>)
     = column_values c' df"
  by (simp add: column_values_def row_get_map_row_other)

lemma loop_cell_Nil [simp]: "loop_cell [] df c x = x"
  by (simp add: loop_cell_def)

lemma loop_table_Nil: "wf_dataframe df \<Longrightarrow> loop_table [] df = df"
proof -
  assume wf: "wf_dataframe df"
  have "map (map_row (loop_cell [] df) (columns df)) (rows df) = map (\<lambda>r. r) (rows df)"
    by (rule map_cong) (use wf in \<open>auto simp: wf_dataframe_def intro!: map_row_id\<close>)
  then show ?thesis by (simp add: loop_table_def)
qed

lemma loop_table_Cons:
  assumes wf: "wf_dataframe df" and c: "c \<notin> fst ` set rules"
  shows "loop_table rules
           (df\<lparr>rows := map (map_row (\<lambda>c' x. if c' = c
                                 then replace_value (upcasts mv (column_values c df)) mv x else x)
                               (columns df)) (rows df)\<rparr>)
         = loop_table ((c, mv) # rules) df"
proof -
  let ?g = "replace_value (upcasts mv (column_values c df)) mv"
  let ?df1 = "df\<lparr>rows := map (map_row (\<lambda>c' x. if c' = c then ?g x else x) (columns df)) (rows df)\<rparr>"
  from c have none: "map_of rules c = None" by (simp add: map_of_eq_None_iff)
  have cell: "loop_cell rules ?df1 c' (if c' = c then ?g x else x) = loop_cell ((c, mv) # rules) df c' x"
    for c' x
  proof (cases "c' = c")
    case True
    then show ?thesis by (simp add: loop_cell_def none)
  next
    case False
    then have "column_values c' ?df1 = column_values c' df" by (rule column_values_other)
    with False show ?thesis by (simp add: loop_cell_def split: option.splits)
  qed
  have "map_row (loop_cell rules ?df1) (columns df)
          (map_row (\<lambda>c' x. if c' = c then ?g x else x) (columns df) r)
        = map_row (loop_cell ((c, mv) # rules) df) (columns df) r"
    if "r \<in> set (rows df)" for r
  proof -
    from that wf have len: "length r = length (columns df)" by (simp add: wf_dataframe_def)
    show ?thesis by (simp only: map_row_comp[OF len] cell)
  qed
  then show ?thesis by (simp add: loop_table_def comp_def cong: map_cong)
qed

lemma replace_loop_Inr:
  assumes "distinct (map fst rules)" and "a < length s" and "wf_dataframe (s ! a)"
    and "fst ` set rules \<subseteq> set (columns (s ! a))"
  shows "replace_loop rules a s = Inr (s[a := loop_table rules (s ! a)])"
  using assms
proof (induction rules arbitrary: s)
  case Nil
  then show ?case by (simp add: loop_table_Nil)
next
  case (Cons rule rules)
  obtain c mv where rule: "rule = (c, mv)" by (cases rule)
  let ?df = "s ! a"
  let ?df1 = "?df\<lparr>rows := map (map_row (\<lambda>c' x. if c' = c
                                 then replace_value (upcasts mv (column_values c ?df)) mv x else x)
                               (columns ?df)) (rows ?df)\<rparr>"
  let ?s1 = "s[a := ?df1]"
  from Cons.prems have c: "c \<in> set (columns ?df)" and notin: "c \<notin> fst ` set rules"
    by (auto simp: rule)
  have step: "replace_inplace a c mv s = Inr ?s1"
    by (simp add: replace_inplace_def replace_column_Inr[OF Cons.prems(3) c])
  have s1a: "?s1 ! a = ?df1" using Cons.prems(2) by simp
  have "replace_loop rules a ?s1 = Inr (?s1[a := loop_table rules (?s1 ! a)])"
  proof (rule Cons.IH)
    show "distinct (map fst rules)" using Cons.prems(1) by simp
    show "a < length ?s1" using Cons.prems(2) by simp
    show "wf_dataframe (?s1 ! a)" unfolding s1a by (rule wf_map_rows[OF Cons.prems(3)])
    show "fst ` set rules \<subseteq> set (columns (?s1 ! a))" unfolding s1a using Cons.prems(4) by simp
  qed
  also have "?s1[a := loop_table rules (?s1 ! a)] = s[a := loop_table ((c, mv) # rules) ?df]"
    unfolding s1a by (simp add: loop_table_Cons[OF Cons.prems(3) notin])
  finally show ?case using step by (simp add: rule)
qed

lemma sentinel_translation_Inr:
  assumes "distinct (map fst rules)" and "a < length s" and "wf_dataframe (s ! a)"
    and "fst ` set rules \<subseteq> set (columns (s ! a))"
  shows "sentinel_translation rules a s = Inr (length s, s @ [loop_table rules (s ! a)])"
proof -
  let ?s1 = "s @ [s ! a]"
  have "replace_loop rules (length s) ?s1 = Inr (?s1[length s := loop_table rules (?s1 ! length s)])"
    by (rule replace_loop_Inr) (use assms in simp_all)
  then show ?thesis by (simp add: sentinel_translation_def copy_def)
qed

lemma loop_table_keeps:
  assumes wf: "wf_dataframe d" and keep: "\<forall>r \<in> set (rows d). keeps rules (columns d) r"
  shows "loop_table rules d = d"
proof -
  have "map_row (loop_cell rules d) (columns d) r = r" if r: "r \<in> set (rows d)" for r
  proof (rule map_row_id)
    show "length r = length (columns d)" using wf r by (simp add: wf_dataframe_def)
  next
    fix c x assume "(c, x) \<in> set (zip (columns d) r)"
    with wf have x: "row_get (columns d) r c = x"
      by (auto simp: wf_dataframe_def intro: row_get_mem)
    show "loop_cell rules d c x = x"
    proof (cases "map_of rules c")
      case None
      then show ?thesis by (simp add: loop_cell_def)
    next
      case (Some mv)
      then have m: "(c, mv) \<in> set rules" by (rule map_of_SomeD)
      with keep have "\<forall>r' \<in> set (rows d). \<not> isin (row_get (columns d) r' c) (set mv)"
        by (auto simp: keeps_def)
      then have "\<not> upcasts mv (column_values c d)" and "\<not> isin x (set mv)"
        using r x by (auto simp: upcasts_def column_values_def)
      with Some show ?thesis by (simp add: loop_cell_def replace_value_def)
    qed
  qed
  then show ?thesis by (simp add: loop_table_def cong: map_cong)
qed

lemma column_values_loop_table:
  assumes wf: "wf_dataframe d" and c: "c \<in> set (columns d)"
  shows "column_values c (loop_table rules d) = map (loop_cell rules d c) (column_values c d)"
proof -
  have "row_get (columns d) (map_row (loop_cell rules d) (columns d) r) c
      = loop_cell rules d c (row_get (columns d) r c)" if "r \<in> set (rows d)" for r
  proof -
    from that wf have "length r = length (columns d)" by (simp add: wf_dataframe_def)
    from row_get_present[OF this c] show ?thesis by (simp add: row_get_map_row)
  qed
  then show ?thesis by (simp add: column_values_def loop_table_def)
qed

section \<open>The diagnostics and the stages of the pipeline\<close>

lemma count_list_pos: "x \<in> set xs \<Longrightarrow> 0 < count_list xs x"
  using count_list_0_iff[of xs x] by auto

lemma sum_list_pos_member:
  fixes ns :: "nat list"
  shows "n \<in> set ns \<Longrightarrow> 0 < n \<Longrightarrow> 0 < sum_list ns"
  using member_le_sum_list[of n ns] by simp

lemma chi2_crosstab:
  "chi2_contingency (crosstab index cols) =
     (if filter (\<lambda>(i, c). c \<noteq> NaN) (zip index cols) = [] then Inl ValueError else Inr ())"
proof -
  define P where "P = filter (\<lambda>(i, c). c \<noteq> NaN) (zip index cols)"
  define RK where "RK = remdups (map fst P)"
  define CK where "CK = remdups (map snd P)"
  define observed where "observed = map (\<lambda>k. map (\<lambda>c. count_list P (k, c)) CK) RK"
  have ct: "crosstab index cols = observed"
    by (simp add: crosstab_def Let_def P_def RK_def CK_def observed_def)
  show ?thesis
  proof (cases "P = []")
    case True
    then have "observed = []" by (simp add: observed_def RK_def)
    with True show ?thesis
      by (simp add: ct chi2_contingency_def P_def[symmetric])
  next
    case False
    then obtain k0 c0 where p0: "(k0, c0) \<in> set P" by (cases P) auto
    then have k0: "k0 \<in> set RK" and c0: "c0 \<in> set CK"
      by (force simp: RK_def CK_def)+
    have rowsum: "0 < sum_list (map (\<lambda>c. count_list P (k, c)) CK)" if "k \<in> set RK" for k
    proof -
      from that obtain c where kc: "(k, c) \<in> set P" by (auto simp: RK_def)
      then have "c \<in> set CK" by (force simp: CK_def)
      then have "count_list P (k, c) \<in> set (map (\<lambda>c. count_list P (k, c)) CK)" by simp
      then show ?thesis using count_list_pos[OF kc] by (rule sum_list_pos_member)
    qed
    have colsum: "0 < sum_list (map (\<lambda>r. r ! j) observed)" if "j < length CK" for j
    proof -
      have eq: "map (\<lambda>r. r ! j) observed = map (\<lambda>k. count_list P (k, CK ! j)) RK"
        using that by (simp add: observed_def)
      from that have "CK ! j \<in> set CK" by simp
      then obtain k where kc: "(k, CK ! j) \<in> set P" by (auto simp: CK_def)
      then have "k \<in> set RK" by (force simp: RK_def)
      then have "count_list P (k, CK ! j) \<in> set (map (\<lambda>k. count_list P (k, CK ! j)) RK)" by simp
      then show ?thesis unfolding eq using count_list_pos[OF kc] by (rule sum_list_pos_member)
    qed
    have nonempty: "concat observed \<noteq> []"
    proof -
      from k0 c0 have "map (\<lambda>c. count_list P (k0, c)) CK \<in> set observed"
        and "map (\<lambda>c. count_list P (k0, c)) CK \<noteq> []"
        by (auto simp: observed_def)
      then show ?thesis by auto
    qed
    have "0 \<notin> set (concat (expected_products observed))"
    proof
      assume "0 \<in> set (concat (expected_products observed))"
      then obtain row j where row: "row \<in> set observed" and j: "j < length row"
        and z: "sum_list row * sum_list (map (\<lambda>r. r ! j) observed) = 0"
        by (auto simp: expected_products_def)
      from row obtain k where k: "k \<in> set RK" and r: "row = map (\<lambda>c. count_list P (k, c)) CK"
        by (auto simp: observed_def)
      from j r have "j < length CK" by simp
      from rowsum[OF k] colsum[OF this]
      have "0 < sum_list row * sum_list (map (\<lambda>r. r ! j) observed)"
        unfolding r by (rule mult_pos_pos)
      with z show False by linarith
    qed
    with nonempty False show ?thesis
      by (simp add: ct chi2_contingency_def P_def[symmetric])
  qed
qed

lemma filter_zip_Nil:
  assumes "length xs = length ys" and "\<forall>y \<in> set ys. P y"
  shows "filter (\<lambda>(x, y). P y) (zip xs ys) = [] \<longleftrightarrow> ys = []"
proof (cases ys)
  case Nil
  then show ?thesis by simp
next
  case (Cons y ys')
  with assms obtain x xs' where "xs = x # xs'" by (cases xs) auto
  with Cons assms show ?thesis by simp
qed

lemma distinct_exclusion_rules: "distinct (map fst exclusion_rules)"
  by (simp add: exclusion_rules_def)

lemma vp_renamed: "''VotedParty'' \<in> set renamed_columns" "''VotedCoalition'' \<notin> set renamed_columns"
  by (simp_all add: renamed_columns_def)

lemma exclusion_rules_columns:
  "fst ` set exclusion_rules \<subseteq> set (renamed_columns @ [''VotedCoalition''])"
  by (simp add: exclusion_rules_def renamed_columns_def)

lemma income_column: "''HouseholdIncome'' \<in> set (renamed_columns @ [''VotedCoalition''])"
  by (simp add: renamed_columns_def)

lemma coalition_not_tracked: "map_of exclusion_rules ''VotedCoalition'' = None"
  by (simp add: exclusion_rules_def)

lemma wf_renamed:
  "\<forall>r \<in> set rs. length r = 18 \<Longrightarrow>
   wf_dataframe \<lparr>columns = renamed_columns @ [''VotedCoalition''], rows = rs\<rparr>"
  by (simp add: wf_dataframe_def distinct_renamed_columns vp_renamed length_renamed_columns)

lemma missingness_diagnostics_result:
  assumes wf: "wf_dataframe d" and cols: "columns d = renamed_columns @ [''VotedCoalition'']"
    and vc: "\<forall>r \<in> set (rows d). row_get (columns d) r ''VotedCoalition'' \<noteq> NaN"
  shows "missingness_diagnostics d = (if rows d = [] then Inl ValueError else Inr ())"
proof -
  let ?m = "loop_table exclusion_rules d"
  have tr: "sentinel_translation exclusion_rules 0 [d] = Inr (1, [d, ?m])"
    using sentinel_translation_Inr[of exclusion_rules 0 "[d]"] wf exclusion_rules_columns
    by (simp add: distinct_exclusion_rules cols)
  have mcols: "columns ?m = renamed_columns @ [''VotedCoalition'']"
    by (simp add: loop_table_def cols)
  have 1: "getitem_column ''HouseholdIncome'' ?m = Inr (column_values ''HouseholdIncome'' ?m)"
    using income_column by (simp add: getitem_column_def mcols del: set_append)
  have 2: "getitem_column ''VotedCoalition'' ?m = Inr (column_values ''VotedCoalition'' ?m)"
    by (simp add: getitem_column_def mcols)
  have "loop_cell exclusion_rules d ''VotedCoalition'' = (\<lambda>x. x)"
    by (simp add: loop_cell_def coalition_not_tracked fun_eq_iff)
  then have vcm: "column_values ''VotedCoalition'' ?m = column_values ''VotedCoalition'' d"
    using column_values_loop_table[OF wf, of "''VotedCoalition''" exclusion_rules]
    by (simp add: cols)
  have len: "length (map (\<lambda>x. x = NaN) (column_values ''HouseholdIncome'' ?m))
      = length (column_values ''VotedCoalition'' d)"
    by (simp add: column_values_def loop_table_def)
  have all: "\<forall>y \<in> set (column_values ''VotedCoalition'' d). y \<noteq> NaN"
    using vc by (auto simp: column_values_def)
  have "filter (\<lambda>(i, c). c \<noteq> NaN)
          (zip (map (\<lambda>x. x = NaN) (column_values ''HouseholdIncome'' ?m))
               (column_values ''VotedCoalition'' d)) = []
        \<longleftrightarrow> column_values ''VotedCoalition'' d = []"
    by (rule filter_zip_Nil[OF len all])
  also have "\<dots> \<longleftrightarrow> rows d = []" by (simp add: column_values_def)
  finally show ?thesis
    by (simp add: missingness_diagnostics_def tr 1 2 vcm chi2_crosstab)
qed

lemma collapsed_Inr:
  assumes "set columns_to_keep \<subseteq> set (columns df)"
  shows "collapsed df =
     Inr \<lparr>columns = renamed_columns @ [''VotedCoalition''],
          rows = map (\<lambda>r. r @ [series_value (assign_target (row_get renamed_columns r ''VotedParty''))])
                   (filter (\<lambda>r. isin (row_get renamed_columns r ''VotedParty'') party_codes)
                     (map (\<lambda>r. map (row_get (columns df) r) columns_to_keep) (rows df)))\<rparr>"
proof -
  let ?d = "\<lparr>columns = renamed_columns,
       rows = map (\<lambda>r. map (row_get (columns df) r) columns_to_keep) (rows df)\<rparr>"
  have pr: "project_rename df = Inr ?d" by (rule project_rename_Inr[OF assms])
  from project_rename_wf[OF pr] have wf: "wf_dataframe ?d" by simp
  have "coalition_collapse ?d = Inr \<lparr>columns = columns ?d @ [''VotedCoalition''],
          rows = map (\<lambda>r. r @ [series_value (assign_target (row_get (columns ?d) r ''VotedParty''))])
                   (filter (\<lambda>r. isin (row_get (columns ?d) r ''VotedParty'') party_codes) (rows ?d))\<rparr>"
    by (rule coalition_collapse_new[OF wf]) (simp_all add: vp_renamed)
  then show ?thesis by (simp add: collapsed_def pr)
qed

lemma collapsed_Inl:
  "\<not> set columns_to_keep \<subseteq> set (columns df) \<Longrightarrow>
   collapsed df = Inl (KeyError (filter (\<lambda>c. c \<notin> set (columns df)) columns_to_keep))"
  by (simp add: collapsed_def project_rename_Inl)

lemma collapsed_rows:
  assumes "collapsed df = Inr d" and "r \<in> set (rows d)"
  shows "columns d = renamed_columns @ [''VotedCoalition''] \<and> length r = 18 \<and>
         isin (row_get (columns d) r ''VotedParty'') party_codes \<and>
         row_get (columns d) r ''VotedCoalition'' =
           series_value (assign_target (row_get (columns d) r ''VotedParty''))"
proof -
  have sub: "set columns_to_keep \<subseteq> set (columns df)"
    using assms(1) collapsed_Inl[of df] by (cases "set columns_to_keep \<subseteq> set (columns df)") auto
  note d = assms(1)[unfolded collapsed_Inr[OF sub], simplified]
  from assms(2) obtain r0 where r: "r = r0 @ [series_value (assign_target (row_get renamed_columns r0 ''VotedParty''))]"
    and isin: "isin (row_get renamed_columns r0 ''VotedParty'') party_codes"
    and len: "length r0 = length renamed_columns"
    unfolding d[symmetric] by (auto simp: length_renamed_columns length_columns_to_keep)
  have cols: "columns d = renamed_columns @ [''VotedCoalition'']" using d by auto
  have 1: "row_get (columns d) r ''VotedParty'' = row_get renamed_columns r0 ''VotedParty''"
    unfolding cols r by (rule row_get_snoc_old[OF len]) simp
  have 2: "row_get (columns d) r ''VotedCoalition'' = series_value (assign_target (row_get renamed_columns r0 ''VotedParty''))"
    unfolding cols r by (rule row_get_snoc_new[OF len]) (simp add: vp_renamed)
  from cols 1 2 isin len show ?thesis by (simp add: r length_renamed_columns)
qed

lemma collapsed_columns:
  "collapsed df = Inr d \<Longrightarrow> columns d = renamed_columns @ [''VotedCoalition'']"
  using collapsed_Inr[of df] collapsed_Inl[of df]
  by (cases "set columns_to_keep \<subseteq> set (columns df)") auto

lemma collapsed_wf:
  assumes "collapsed df = Inr d"
  shows "wf_dataframe d"
proof -
  have "\<forall>r \<in> set (rows d). length r = 18"
    using collapsed_rows[OF assms] by blast
  then show ?thesis
    by (simp add: wf_dataframe_def collapsed_columns[OF assms] distinct_renamed_columns
        vp_renamed length_renamed_columns)
qed

lemma collapsed_diagnostics:
  assumes "collapsed df = Inr d"
  shows "missingness_diagnostics d = (if rows d = [] then Inl ValueError else Inr ())"
proof (rule missingness_diagnostics_result)
  show "wf_dataframe d" by (rule collapsed_wf[OF assms])
  show "columns d = renamed_columns @ [''VotedCoalition'']" by (rule collapsed_columns[OF assms])
  show "\<forall>r \<in> set (rows d). row_get (columns d) r ''VotedCoalition'' \<noteq> NaN"
  proof
    fix r assume "r \<in> set (rows d)"
    from collapsed_rows[OF assms this]
    have "isin (row_get (columns d) r ''VotedParty'') party_codes"
      and "row_get (columns d) r ''VotedCoalition'' =
           series_value (assign_target (row_get (columns d) r ''VotedParty''))" by blast+
    with assign_target_party_codes[of "row_get (columns d) r ''VotedParty''"]
    show "row_get (columns d) r ''VotedCoalition'' \<noteq> NaN" by auto
  qed
qed

lemma pipeline_collapsed:
  "pipeline df =
     and_then (collapsed df) (\<lambda>d. and_then (missingness_diagnostics d)
                                      (\<lambda>_. completeness_filter exclusion_rules d))"
  by (cases "project_rename df") (simp_all add: pipeline_def clean_stages_def collapsed_def)

lemma pipeline_result:
  "collapsed df = Inr d \<Longrightarrow>
   pipeline df = (if rows d = [] then Inl ValueError else completeness_filter exclusion_rules d)"
  by (simp add: pipeline_collapsed collapsed_diagnostics)

lemma pipeline_Inr_iff:
  "pipeline df = Inr (df_filtered, report) \<longleftrightarrow>
     (\<exists>d. collapsed df = Inr d \<and> rows d \<noteq> [] \<and>
          completeness_filter exclusion_rules d = Inr (df_filtered, report))"
proof (cases "collapsed df")
  case (Inl e)
  then show ?thesis by (simp add: pipeline_collapsed)
next
  case (Inr d)
  then show ?thesis by (simp add: pipeline_result)
qed

lemma example_raw_collapsed: "collapsed example_raw = Inr example_collapsed"
  by code_simp

lemma example_raw_pipeline: "pipeline example_raw = Inr (example_clean, example_report)"
proof -
  have "completeness_filter exclusion_rules example_collapsed = Inr (example_clean, example_report)"
    by code_simp
  moreover have "rows example_collapsed \<noteq> []" by (simp add: example_collapsed_def)
  ultimately show ?thesis by (simp add: pipeline_result[OF example_raw_collapsed])
qed

lemma coalition_label_values:
  "x \<in> {Num 1, Num 2, Num 3, Num 4} \<Longrightarrow>
   coalition_label x \<in> {Some ''CSX'', Some ''M5S'', Some ''TerzoPolo'', Some ''CDX''}"
  by (auto simp: coalition_label_def label_names_VotedCoalition_def)

section \<open>Properties of the clean table\<close>

text \<open>
  C1 (completeness invariant). In the clean table \<^verbatim>\<open>df_filtered\<close> every column
  named by the exclusion rules is present, and no row's cell under it equals one of that
  column's sentinel codes.
\<close>

theorem completeness_invariant:
  assumes "pipeline df = Inr (df_filtered, report)"
    and "(column, sentinel_codes) \<in> set exclusion_rules"
    and "r \<in> set (rows df_filtered)"
    and "v \<in> set sentinel_codes"
  shows "column \<in> set (columns df_filtered) \<and> row_get (columns df_filtered) r column \<noteq> Num v"
proof -
  from assms(1) obtain d where
    cf: "completeness_filter exclusion_rules d = Inr (df_filtered, report)"
    by (auto simp: pipeline_Inr_iff)
  from completeness_filter_Inr[OF cf]
  have out: "df_filtered = d\<lparr>rows := filter (keeps exclusion_rules (columns d)) (rows d)\<rparr>"
    and cols: "fst ` set exclusion_rules \<subseteq> set (columns d)" by simp_all
  from cols assms(2) have "column \<in> set (columns df_filtered)"
    by (auto simp: out)
  moreover from assms(3) have "keeps exclusion_rules (columns df_filtered) r"
    by (simp add: out)
  with assms(2) have "\<not> isin (row_get (columns df_filtered) r column) (set sentinel_codes)"
    by (auto simp: keeps_def)
  with assms(4) have "row_get (columns df_filtered) r column \<noteq> Num v" by auto
  ultimately show ?thesis by simp
qed

theorem completeness_invariant_witness:
  "pipeline example_raw = Inr (example_clean, example_report) \<and>
   (''HouseholdIncome'', [77, 88, 99]) \<in> set exclusion_rules \<and>
   hd (rows example_clean) \<in> set (rows example_clean) \<and>
   (77::int) \<in> set [77, 88, 99] \<and>
   ''HouseholdIncome'' \<in> set (columns example_clean) \<and>
   row_get (columns example_clean) (hd (rows example_clean)) ''HouseholdIncome'' \<noteq> Num 77"
proof -
  have 1: "(''HouseholdIncome'', [77, 88, 99]) \<in> set exclusion_rules"
    by (simp add: exclusion_rules_def)
  have 2: "hd (rows example_clean) \<in> set (rows example_clean)"
    by (simp add: example_clean_def)
  have 3: "(77::int) \<in> set [77, 88, 99]" by simp
  from completeness_invariant[OF example_raw_pipeline 1 2 3] example_raw_pipeline 1 2 3
  show ?thesis by simp
qed

text \<open>
  C2. After the coalition collapse, and so in the clean table, the cell
  \<^verbatim>\<open>VotedCoalition\<close> of every row is the code of one of the four coalitions CSX,
  M5S, TerzoPolo and CDX; no row is left with the missing marker there.
\<close>

theorem voted_coalition_resolved:
  assumes "collapsed df = Inr df_collapsed"
    and "pipeline df = Inr (df_filtered, report)"
  shows
    "(\<forall>r \<in> set (rows df_collapsed).
       coalition_label (row_get (columns df_collapsed) r ''VotedCoalition'')
         \<in> {Some ''CSX'', Some ''M5S'', Some ''TerzoPolo'', Some ''CDX''}) \<and>
     (\<forall>r \<in> set (rows df_filtered).
       coalition_label (row_get (columns df_filtered) r ''VotedCoalition'')
         \<in> {Some ''CSX'', Some ''M5S'', Some ''TerzoPolo'', Some ''CDX''})"
proof -
  have 1: "coalition_label (row_get (columns df_collapsed) r ''VotedCoalition'')
         \<in> {Some ''CSX'', Some ''M5S'', Some ''TerzoPolo'', Some ''CDX''}"
    if "r \<in> set (rows df_collapsed)" for r
  proof -
    from collapsed_rows[OF assms(1) that]
    have "row_get (columns df_collapsed) r ''VotedCoalition'' \<in> {Num 1, Num 2, Num 3, Num 4}"
      using assign_target_party_codes by metis
    then show ?thesis by (rule coalition_label_values)
  qed
  from assms have "completeness_filter exclusion_rules df_collapsed = Inr (df_filtered, report)"
    by (auto simp: pipeline_Inr_iff)
  from completeness_filter_Inr[OF this]
  have "columns df_filtered = columns df_collapsed"
    "set (rows df_filtered) \<subseteq> set (rows df_collapsed)"
    by auto
  with 1 show ?thesis by auto
qed

theorem voted_coalition_resolved_witness:
  "collapsed example_raw = Inr example_collapsed \<and>
   pipeline example_raw = Inr (example_clean, example_report) \<and>
   hd (rows example_clean) \<in> set (rows example_clean) \<and>
   coalition_label (row_get (columns example_clean) (hd (rows example_clean)) ''VotedCoalition'')
     \<in> {Some ''CSX'', Some ''M5S'', Some ''TerzoPolo'', Some ''CDX''}"
proof -
  have r: "hd (rows example_clean) \<in> set (rows example_clean)"
    by (simp add: example_clean_def)
  from voted_coalition_resolved[OF example_raw_collapsed example_raw_pipeline] r
  have "coalition_label (row_get (columns example_clean) (hd (rows example_clean)) ''VotedCoalition'')
     \<in> {Some ''CSX'', Some ''M5S'', Some ''TerzoPolo'', Some ''CDX''}"
    by blast
  with example_raw_collapsed example_raw_pipeline r show ?thesis by simp
qed

text \<open>
  C3. \<^verbatim>\<open>assign_target\<close> maps the party code 10 to CSX (code 1), as the notebook's
  text does when it lists Unione Popolare in the centre-left, but the filter of line 126
  keeps the codes \<^verbatim>\<open>set(range(1, 10)) - {9}\<close>, that is 1 to 8 only: a row whose
  voted-party code is 10 is dropped before \<^verbatim>\<open>assign_target\<close> is applied.
\<close>

theorem coalition_collapse_code_10:
  "assign_target (Num 10) = Some 1 \<and>
   collapsed \<lparr>columns = columns_to_keep, rows = [tl (example_row 4 5 10)]\<rparr> =
     Inr \<lparr>columns = renamed_columns @ [''VotedCoalition''], rows = []\<rparr>"
  by code_simp

lemma exclusion_rules_first:
  "\<exists>rest. exclusion_rules = (''VotedParty'', [66, 77, 88, 99]) # rest"
  by (simp add: exclusion_rules_def)

text \<open>
  C10. Every row that reaches the completeness filter has a voted-party code from 1 to 8,
  so the first pass of the loop, on \<^verbatim>\<open>VotedParty\<close> with the codes 66, 77, 88 and
  99, removes no row, and the first count printed is the row count after the collapse.
\<close>

theorem first_filter_removes_nothing:
  assumes "collapsed df = Inr df_collapsed"
    and "pipeline df = Inr (df_filtered, report)"
  shows
    "(\<forall>r \<in> set (rows df_collapsed).
        \<exists>v. row_get (columns df_collapsed) r ''VotedParty'' = Num v \<and> 1 \<le> v \<and> v \<le> 8) \<and>
     filter_not_isin ''VotedParty'' (set [66, 77, 88, 99]) df_collapsed = Inr df_collapsed \<and>
     hd exclusion_rules = (''VotedParty'', [66, 77, 88, 99]) \<and>
     hd report = (''VotedParty'', length (rows df_collapsed))"
proof -
  obtain rest where rules: "exclusion_rules = (''VotedParty'', [66, 77, 88, 99]) # rest"
    using exclusion_rules_first by blast
  have codes: "\<exists>v. row_get (columns df_collapsed) r ''VotedParty'' = Num v \<and> 1 \<le> v \<and> v \<le> 8"
    if "r \<in> set (rows df_collapsed)" for r
  proof -
    from collapsed_rows[OF assms(1) that]
    have "isin (row_get (columns df_collapsed) r ''VotedParty'') party_codes" by blast
    then show ?thesis by (simp only: isin_party_codes)
  qed
  from assms have "completeness_filter exclusion_rules df_collapsed = Inr (df_filtered, report)"
    by (auto simp: pipeline_Inr_iff)
  then have cf: "completeness_filter ((''VotedParty'', [66, 77, 88, 99]) # rest) df_collapsed
      = Inr (df_filtered, report)"
    by (simp only: rules)
  from completeness_filter_Inr[OF cf] have vp: "''VotedParty'' \<in> set (columns df_collapsed)"
    by simp
  have "filter (\<lambda>r. \<not> isin (row_get (columns df_collapsed) r ''VotedParty'') (set [66, 77, 88, 99]))
          (rows df_collapsed) = rows df_collapsed"
    by (rule filter_True) (use codes in fastforce)
  with vp have step: "filter_not_isin ''VotedParty'' (set [66, 77, 88, 99]) df_collapsed = Inr df_collapsed"
    by (simp add: filter_not_isin_def)
  from cf step have "hd report = (''VotedParty'', length (rows df_collapsed))"
    by (auto simp: and_then_eq_Inr)
  moreover have "hd exclusion_rules = (''VotedParty'', [66, 77, 88, 99])"
    by (simp add: rules)
  ultimately show ?thesis using codes step by blast
qed

theorem first_filter_removes_nothing_witness:
  "collapsed example_raw = Inr example_collapsed \<and>
   pipeline example_raw = Inr (example_clean, example_report) \<and>
   filter_not_isin ''VotedParty'' (set [66, 77, 88, 99]) example_collapsed = Inr example_collapsed \<and>
   hd example_report = (''VotedParty'', length (rows example_collapsed))"
  using first_filter_removes_nothing[OF example_raw_collapsed example_raw_pipeline]
    example_raw_collapsed example_raw_pipeline
  by simp

lemma final_table_completeness_filter:
  "final_table (completeness_filter rules df) =
     (if fst ` set rules \<subseteq> set (columns df)
      then Some (df\<lparr>rows := filter (keeps rules (columns df)) (rows df)\<rparr>) else None)"
proof (cases "fst ` set rules \<subseteq> set (columns df)")
  case True
  from completeness_filter_total[OF True] obtain out rep
    where r: "completeness_filter rules df = Inr (out, rep)" by blast
  from completeness_filter_Inr[OF r] r True show ?thesis
    by (simp add: final_table_def)
next
  case False
  from completeness_filter_fails[OF False] False show ?thesis
    by (auto simp: final_table_def)
qed

text \<open>
  C4 (order invariance). For every table, running the loop on a permutation of the rules
  ends with the same table as running it on the rules in their order: both raise, or both
  return the same rows in the same order.
\<close>

theorem completeness_filter_order_invariant:
  assumes "mset rules' = mset rules"
  shows "final_table (completeness_filter rules' df) = final_table (completeness_filter rules df)"
proof -
  from assms have s: "set rules' = set rules" by (rule mset_eq_setD)
  then have "keeps rules' = keeps rules"
    by (simp add: keeps_def fun_eq_iff)
  with s show ?thesis
    by (simp add: final_table_completeness_filter)
qed

theorem completeness_filter_order_invariant_witness:
  "mset (rev exclusion_rules) = mset exclusion_rules \<and>
   final_table (completeness_filter (rev exclusion_rules) example_collapsed) = Some example_clean \<and>
   final_table (completeness_filter exclusion_rules example_collapsed) = Some example_clean"
proof -
  have 1: "mset (rev exclusion_rules) = mset exclusion_rules" by simp
  have 2: "final_table (completeness_filter exclusion_rules example_collapsed) = Some example_clean"
    by code_simp
  from completeness_filter_order_invariant[OF 1, of example_collapsed] 1 2 show ?thesis by simp
qed

section \<open>Projection\<close>

lemma map_of_column_mapping:
  "map (map_of column_mapping) columns_to_keep = map Some renamed_columns"
  by (simp add: columns_to_keep_def renamed_columns_def column_mapping_def)

text \<open>
  C6 (projection and rename). When every listed source column is present, the stage
  returns the table of exactly those columns, in the listed order and under their new
  names, each row being the projection of the raw row at the same position. Otherwise it
  raises the \<^verbatim>\<open>KeyError\<close> of the absent labels (the schema error of the
  specification) and returns no table.
\<close>

theorem project_rename_contract:
  "project_rename df =
     (if set columns_to_keep \<subseteq> set (columns df)
      then Inr \<lparr>columns = renamed_columns,
                rows = map (\<lambda>r. map (row_get (columns df) r) columns_to_keep) (rows df)\<rparr>
      else Inl (KeyError (filter (\<lambda>c. c \<notin> set (columns df)) columns_to_keep))) \<and>
   map (map_of column_mapping) columns_to_keep = map Some renamed_columns"
  by (simp add: project_rename_Inr project_rename_Inl map_of_column_mapping)

lemma example_raw_projection:
  "map (\<lambda>r. map (row_get (columns example_raw) r) columns_to_keep) (rows example_raw) =
     [tl (example_row 1 5 3), tl (example_row 2 77 1), tl (example_row 3 5 66), tl (example_row 4 5 10)]"
  by code_simp

theorem project_rename_contract_witness:
  "set columns_to_keep \<subseteq> set (columns example_raw) \<and>
   project_rename example_raw =
     Inr \<lparr>columns = renamed_columns,
          rows = [tl (example_row 1 5 3), tl (example_row 2 77 1),
                  tl (example_row 3 5 66), tl (example_row 4 5 10)]\<rparr> \<and>
   \<not> set columns_to_keep \<subseteq> set (columns example_no_party) \<and>
   project_rename example_no_party = Inl (KeyError [''prtvteit''])"
proof -
  have 1: "set columns_to_keep \<subseteq> set (columns example_raw)"
    by (auto simp: example_raw_def)
  have 2: "\<not> set columns_to_keep \<subseteq> set (columns example_no_party)"
    by (simp add: example_no_party_def columns_to_keep_def)
  have 3: "filter (\<lambda>c. c \<notin> set (columns example_no_party)) columns_to_keep = [''prtvteit'']"
    by (simp add: example_no_party_def columns_to_keep_def)
  from project_rename_contract[of example_raw] project_rename_contract[of example_no_party]
  show ?thesis
    by (simp only: 1 2 3 example_raw_projection if_True if_False simp_thms)
qed

section \<open>Counts after the collapse\<close>

lemma row_get_projected:
  "row_get renamed_columns (map f columns_to_keep) ''VotedParty'' = f ''prtvteit''"
  by (simp add: renamed_columns_def columns_to_keep_def row_get_def)

lemma collapsed_count:
  assumes "set columns_to_keep \<subseteq> set (columns df)"
  shows "\<exists>d. collapsed df = Inr d \<and> length (rows d) = count_isin ''prtvteit'' party_codes df"
  by (simp add: collapsed_Inr[OF assms] count_isin_def filter_map comp_def row_get_projected)

lemma length_filter3:
  "\<forall>x \<in> set xs. (P x \<and> \<not> Q x \<and> \<not> R x) \<or> (\<not> P x \<and> Q x \<and> \<not> R x) \<or> (\<not> P x \<and> \<not> Q x \<and> R x) \<Longrightarrow>
   length (filter P xs) + length (filter Q xs) + length (filter R xs) = length xs"
  by (induction xs) auto

lemma isin_three:
  "isin x ({66, 77, 88, 99} \<union> {9} \<union> {1..8}) \<Longrightarrow>
     (isin x {66, 77, 88, 99} \<and> \<not> isin x {9} \<and> \<not> isin x party_codes) \<or>
     (\<not> isin x {66, 77, 88, 99} \<and> isin x {9} \<and> \<not> isin x party_codes) \<or>
     (\<not> isin x {66, 77, 88, 99} \<and> \<not> isin x {9} \<and> isin x party_codes)"
  by (cases x) (auto simp: party_codes_def)

text \<open>
  C8, as the code has it. In a raw table of 1000 rows whose voted-party codes are all among
  66, 77, 88, 99, 9 and 1 to 8, with exactly 50 rows on the codes 66, 77, 88, 99 and exactly
  10 rows on the code 9, the table after the collapse has exactly 940 rows.
\<close>

theorem post_collapse_count_940:
  assumes "set columns_to_keep \<subseteq> set (columns df)"
    and "length (rows df) = 1000"
    and "count_isin ''prtvteit'' {66, 77, 88, 99} df = 50"
    and "count_isin ''prtvteit'' {9} df = 10"
    and "\<forall>r \<in> set (rows df). isin (row_get (columns df) r ''prtvteit'') ({66, 77, 88, 99} \<union> {9} \<union> {1..8})"
  shows "\<exists>df_collapsed. collapsed df = Inr df_collapsed \<and> length (rows df_collapsed) = 940"
proof -
  have "count_isin ''prtvteit'' {66, 77, 88, 99} df + count_isin ''prtvteit'' {9} df
          + count_isin ''prtvteit'' party_codes df = length (rows df)"
    unfolding count_isin_def
    by (rule length_filter3) (use assms(5) isin_three in blast)
  with assms(2-4) have "count_isin ''prtvteit'' party_codes df = 940" by simp
  with collapsed_count[OF assms(1)] show ?thesis by simp
qed

lemma scenario_row_party:
  "row_get columns_to_keep (tl (example_row i h p)) ''prtvteit'' = Num p"
  by (simp add: columns_to_keep_def example_row_def row_get_def)

lemma scenario_count:
  "count_isin ''prtvteit'' S (scenario_table other) =
     (if 66 \<in> S then 50 else 0) + (if 9 \<in> S then 10 else 0) + (if other \<in> S then 940 else 0)"
  by (simp add: count_isin_def scenario_table_def scenario_row_party)

theorem post_collapse_count_940_witness:
  "set columns_to_keep \<subseteq> set (columns (scenario_table 3)) \<and>
   length (rows (scenario_table 3)) = 1000 \<and>
   count_isin ''prtvteit'' {66, 77, 88, 99} (scenario_table 3) = 50 \<and>
   count_isin ''prtvteit'' {9} (scenario_table 3) = 10 \<and>
   (\<exists>df_collapsed. collapsed (scenario_table 3) = Inr df_collapsed \<and> length (rows df_collapsed) = 940)"
proof -
  have 1: "set columns_to_keep \<subseteq> set (columns (scenario_table 3))"
    by (simp add: scenario_table_def)
  have 2: "length (rows (scenario_table 3)) = 1000"
    by (simp add: scenario_table_def)
  have 3: "count_isin ''prtvteit'' {66, 77, 88, 99} (scenario_table 3) = 50"
    by (simp add: scenario_count)
  have 4: "count_isin ''prtvteit'' {9} (scenario_table 3) = 10"
    by (simp add: scenario_count)
  have 5: "\<forall>r \<in> set (rows (scenario_table 3)).
      isin (row_get (columns (scenario_table 3)) r ''prtvteit'') ({66, 77, 88, 99} \<union> {9} \<union> {1..8})"
    by (auto simp: scenario_table_def scenario_row_party)
  from post_collapse_count_940[OF 1 2 3 4 5] 1 2 3 4 show ?thesis by simp
qed

lemma scenario_collapsed_11:
  "collapsed (scenario_table 11) = Inr \<lparr>columns = renamed_columns @ [''VotedCoalition''], rows = []\<rparr>"
proof -
  have sub: "set columns_to_keep \<subseteq> set (columns (scenario_table 11))"
    by (simp add: scenario_table_def)
  have "\<not> isin (row_get renamed_columns (map (row_get columns_to_keep r) columns_to_keep) ''VotedParty'') party_codes"
    if "r \<in> set (rows (scenario_table 11))" for r
    using that unfolding row_get_projected
    by (auto simp: scenario_table_def scenario_row_party party_codes_def)
  then have "filter (\<lambda>r. isin (row_get renamed_columns r ''VotedParty'') party_codes)
                     (map (\<lambda>r. map (row_get (columns (scenario_table 11)) r) columns_to_keep) (rows (scenario_table 11))) = []"
    by (auto simp: filter_empty_conv scenario_table_def)
  then show ?thesis
    by (simp add: collapsed_Inr[OF sub])
qed

text \<open>
  C8. The counts of the scenario do not fix the result: the 940 other rows may carry a code
  that no coalition lists, such as 11, and then the collapse drops them too.
\<close>

theorem post_collapse_count_counterexample:
  "length (rows (scenario_table 11)) = 1000 \<and>
   count_isin ''prtvteit'' {66, 77, 88, 99} (scenario_table 11) = 50 \<and>
   count_isin ''prtvteit'' {9} (scenario_table 11) = 10 \<and>
   collapsed (scenario_table 11) = Inr \<lparr>columns = renamed_columns @ [''VotedCoalition''], rows = []\<rparr> \<and>
   length (rows \<lparr>columns = renamed_columns @ [''VotedCoalition''], rows = []\<rparr>) \<noteq> 940"
  using scenario_collapsed_11
  by (simp add: scenario_count) (simp add: scenario_table_def)

section \<open>The sentinel-to-missing translation\<close>

lemma isin_Num_image: "isin x (set codes) \<longleftrightarrow> x \<in> Num ` set codes"
  by (cases x) auto

lemma cell_translated_loop_cell: "cell_translated rules c x (loop_cell rules df c x)"
  by (auto simp: cell_translated_def loop_cell_def replace_value_def isin_Num_image
      as_float64_exact split: option.splits)

lemma loop_table_cell:
  assumes wf: "wf_dataframe df" and i: "i < length (rows df)" and c: "c \<in> set (columns df)"
  shows "row_get (columns df) (rows (loop_table rules df) ! i) c
         = loop_cell rules df c (row_get (columns df) (rows df ! i) c)"
proof -
  from i wf have "length (rows df ! i) = length (columns df)"
    by (simp add: wf_dataframe_def)
  from row_get_present[OF this c] i show ?thesis
    by (simp add: loop_table_def row_get_map_row)
qed

text \<open>
  C7, as the code has it. The statements of lines 183--185 leave every object of the store
  as it was, the input table among them, and allocate one new table,
  \<^verbatim>\<open>df_missing\<close>, with the columns and the number of rows of the input. A cell of a
  column not listed in the rules is the input's cell. In a listed column a sentinel code has
  become the missing marker, and any other cell that \<^verbatim>\<open>float64\<close> holds exactly (a
  string, a missing marker, an integer of magnitude at most \<open>2\<^sup>5\<^sup>3\<close>) is the
  input's cell; a larger integer is the input's cell or its rounding to
  \<^verbatim>\<open>float64\<close>.
\<close>

theorem sentinel_translation_effect:
  assumes "distinct (map fst rules)" and "a < length s" and "wf_dataframe (s ! a)"
    and "fst ` set rules \<subseteq> set (columns (s ! a))"
  shows "\<exists>df_missing.
           sentinel_translation rules a s = Inr (length s, s @ [df_missing]) \<and>
           wf_dataframe df_missing \<and>
           columns df_missing = columns (s ! a) \<and>
           length (rows df_missing) = length (rows (s ! a)) \<and>
           (\<forall>i < length (rows (s ! a)). \<forall>c \<in> set (columns (s ! a)).
              cell_translated rules c
                (row_get (columns (s ! a)) (rows (s ! a) ! i) c)
                (row_get (columns (s ! a)) (rows df_missing ! i) c))"
proof -
  let ?m = "loop_table rules (s ! a)"
  have 1: "sentinel_translation rules a s = Inr (length s, s @ [?m])"
    using assms by (rule sentinel_translation_Inr)
  have 2: "wf_dataframe ?m"
    unfolding loop_table_def by (rule wf_map_rows[OF assms(3)])
  have 3: "columns ?m = columns (s ! a)" "length (rows ?m) = length (rows (s ! a))"
    by (simp_all add: loop_table_def)
  have 4: "cell_translated rules c
                (row_get (columns (s ! a)) (rows (s ! a) ! i) c)
                (row_get (columns (s ! a)) (rows ?m ! i) c)"
    if "i < length (rows (s ! a))" and "c \<in> set (columns (s ! a))" for i c
    unfolding loop_table_cell[OF assms(3) that] by (rule cell_translated_loop_cell)
  from 1 2 3 4 show ?thesis by blast
qed

lemma example_collapsed_translation:
  "sentinel_translation exclusion_rules 0 [example_collapsed] =
     Inr (1, [example_collapsed, example_missing])"
  by code_simp

theorem sentinel_translation_effect_witness:
  "distinct (map fst exclusion_rules) \<and> 0 < length [example_collapsed] \<and>
   wf_dataframe ([example_collapsed] ! 0) \<and>
   fst ` set exclusion_rules \<subseteq> set (columns ([example_collapsed] ! 0)) \<and>
   sentinel_translation exclusion_rules 0 [example_collapsed] =
     Inr (1, [example_collapsed, example_missing]) \<and>
   cell_translated exclusion_rules ''HouseholdIncome''
     (row_get (columns example_collapsed) (rows example_collapsed ! 1) ''HouseholdIncome'')
     (row_get (columns example_collapsed) (rows example_missing ! 1) ''HouseholdIncome'')"
proof -
  have 1: "0 < length [example_collapsed]" by simp
  have 2: "wf_dataframe ([example_collapsed] ! 0)"
    unfolding example_collapsed_def nth_Cons_0
    by (rule wf_renamed) (simp add: example_row_def)
  have 3: "fst ` set exclusion_rules \<subseteq> set (columns ([example_collapsed] ! 0))"
    using exclusion_rules_columns by (simp add: example_collapsed_def)
  from sentinel_translation_effect[OF distinct_exclusion_rules 1 2 3]
  obtain df_missing where
    t: "sentinel_translation exclusion_rules 0 [example_collapsed]
          = Inr (length [example_collapsed], [example_collapsed] @ [df_missing])"
    and c: "\<forall>i < length (rows ([example_collapsed] ! 0)). \<forall>c \<in> set (columns ([example_collapsed] ! 0)).
              cell_translated exclusion_rules c
                (row_get (columns ([example_collapsed] ! 0)) (rows ([example_collapsed] ! 0) ! i) c)
                (row_get (columns ([example_collapsed] ! 0)) (rows df_missing ! i) c)"
    by blast
  from t example_collapsed_translation have m: "df_missing = example_missing" by simp
  have i: "1 < length (rows ([example_collapsed] ! 0))"
    by (simp add: example_collapsed_def)
  have h: "''HouseholdIncome'' \<in> set (columns ([example_collapsed] ! 0))"
    using income_column by (simp add: example_collapsed_def del: set_append)
  from c[rule_format, OF i h]
  have "cell_translated exclusion_rules ''HouseholdIncome''
     (row_get (columns example_collapsed) (rows example_collapsed ! 1) ''HouseholdIncome'')
     (row_get (columns example_collapsed) (rows example_missing ! 1) ''HouseholdIncome'')"
    by (simp add: m)
  with distinct_exclusion_rules 1 2 3 example_collapsed_translation show ?thesis by simp
qed

text \<open>
  C7. A cell that is no sentinel code is not always left unchanged: the column
  \<^verbatim>\<open>Age\<close> below holds the sentinel 999, so the replacement casts it to
  \<^verbatim>\<open>float64\<close>, and the cell \<open>2\<^sup>5\<^sup>3 + 1\<close> of the second row comes out as
  \<open>2\<^sup>5\<^sup>3\<close>.
\<close>

theorem sentinel_translation_counterexample:
  "sentinel_translation exclusion_rules 0 [example_age] = Inr (1, [example_age, example_age_missing]) \<and>
   map_of exclusion_rules ''Age'' = Some [999] \<and>
   row_get (columns example_age) (rows example_age ! 1) ''Age'' = Num 9007199254740993 \<and>
   Num 9007199254740993 \<notin> Num ` set [999] \<and>
   row_get (columns example_age_missing) (rows example_age_missing ! 1) ''Age'' = Num 9007199254740992"
proof -
  have "sentinel_translation exclusion_rules 0 [example_age] = Inr (1, [example_age, example_age_missing])"
    by code_simp
  moreover have "map_of exclusion_rules ''Age'' = Some [999]"
    by (simp add: exclusion_rules_def)
  moreover have "row_get (columns example_age) (rows example_age ! 1) ''Age'' = Num 9007199254740993"
    by code_simp
  moreover have "row_get (columns example_age_missing) (rows example_age_missing ! 1) ''Age'' = Num 9007199254740992"
    by code_simp
  ultimately show ?thesis by simp
qed

section \<open>Empty results\<close>

lemma completeness_filter_counts:
  "completeness_filter rules df = Inr (out, rep) \<Longrightarrow> (c, n) \<in> set rep \<Longrightarrow> length (rows out) \<le> n"
proof (induction rules arbitrary: df out rep)
  case Nil
  then show ?case by simp
next
  case (Cons rule rules)
  obtain c' vs where rule: "rule = (c', vs)" by (cases rule)
  from Cons.prems(1) obtain df' rep' where
    1: "filter_not_isin c' (set vs) df = Inr df'" and
    2: "completeness_filter rules df' = Inr (out, rep')" and
    3: "rep = (c', length (rows df')) # rep'"
    by (auto simp: rule and_then_eq_Inr)
  from completeness_filter_Inr[OF 2] have "length (rows out) \<le> length (rows df')"
    by simp
  with Cons.IH[OF 2] Cons.prems(2) 3 show ?case by auto
qed

lemma example_income_collapsed_eq: "collapsed example_income_raw = Inr example_income_collapsed"
  by code_simp

lemma example_income_filter:
  "completeness_filter exclusion_rules example_income_collapsed =
     Inr (\<lparr>columns = renamed_columns @ [''VotedCoalition''], rows = []\<rparr>, example_income_report)"
  by code_simp

lemma example_income_pipeline:
  "pipeline example_income_raw =
     Inr (\<lparr>columns = renamed_columns @ [''VotedCoalition''], rows = []\<rparr>, example_income_report)"
  using example_income_filter
  by (simp add: pipeline_result[OF example_income_collapsed_eq] example_income_collapsed_def)

text \<open>
  C5. The script has no check of the row count and no empty-result error. On the sample
  below the collapse leaves one row, the pass on \<^verbatim>\<open>HouseholdIncome\<close> leaves none,
  and the run ends normally with an empty \<^verbatim>\<open>df_filtered\<close>.
\<close>

theorem no_empty_result_error_counterexample:
  "collapsed example_income_raw = Inr example_income_collapsed \<and>
   length (rows example_income_collapsed) = 1 \<and>
   (''HouseholdIncome'', 0) \<in> set example_income_report \<and>
   pipeline example_income_raw =
     Inr (\<lparr>columns = renamed_columns @ [''VotedCoalition''], rows = []\<rparr>, example_income_report)"
  using example_income_collapsed_eq example_income_pipeline
  by (simp add: example_income_collapsed_def example_income_report_def)

text \<open>
  C5, as the code has it. The script checks no row count and has no error of its own for
  an empty table. When the collapse leaves rows and a pass of the completeness filter
  leaves none, nothing is raised and \<^verbatim>\<open>df_filtered\<close> is the empty table. When the
  collapse itself leaves no row, the run does stop before the filter, with the
  \<^verbatim>\<open>ValueError\<close> that \<^verbatim>\<open>chi2_contingency\<close> raises on the empty
  contingency table of line 213.
\<close>

theorem empty_result_behaviour:
  assumes "set columns_to_keep \<subseteq> set (columns df)"
  shows "\<exists>df_collapsed.
           collapsed df = Inr df_collapsed \<and>
           (if rows df_collapsed = [] then pipeline df = Inl ValueError
            else \<exists>df_filtered report.
                   pipeline df = Inr (df_filtered, report) \<and>
                   (0 \<in> snd ` set report \<longrightarrow> rows df_filtered = []))"
proof -
  from collapsed_Inr[OF assms] obtain d where d: "collapsed df = Inr d"
    by simp
  show ?thesis
  proof (cases "rows d = []")
    case True
    with d show ?thesis by (auto simp: pipeline_result)
  next
    case False
    from exclusion_rules_columns collapsed_columns[OF d]
    have "fst ` set exclusion_rules \<subseteq> set (columns d)" by simp
    from completeness_filter_total[OF this] obtain out rep
      where cf: "completeness_filter exclusion_rules d = Inr (out, rep)" by blast
    have "rows out = []" if "0 \<in> snd ` set rep"
    proof -
      from that obtain c where "(c, 0) \<in> set rep" by force
      from completeness_filter_counts[OF cf this] show ?thesis by simp
    qed
    with d cf False show ?thesis by (auto simp: pipeline_result)
  qed
qed

lemma example_sentinel_collapsed:
  "collapsed example_sentinel_raw = Inr \<lparr>columns = renamed_columns @ [''VotedCoalition''], rows = []\<rparr>"
  by code_simp

theorem empty_result_behaviour_witness:
  "set columns_to_keep \<subseteq> set (columns example_income_raw) \<and>
   collapsed example_income_raw = Inr example_income_collapsed \<and>
   rows example_income_collapsed \<noteq> [] \<and>
   0 \<in> snd ` set example_income_report \<and>
   pipeline example_income_raw =
     Inr (\<lparr>columns = renamed_columns @ [''VotedCoalition''], rows = []\<rparr>, example_income_report) \<and>
   set columns_to_keep \<subseteq> set (columns example_sentinel_raw) \<and>
   collapsed example_sentinel_raw = Inr \<lparr>columns = renamed_columns @ [''VotedCoalition''], rows = []\<rparr> \<and>
   pipeline example_sentinel_raw = Inl ValueError"
proof -
  have 1: "set columns_to_keep \<subseteq> set (columns example_income_raw)"
    by (auto simp: example_income_raw_def)
  have 2: "0 \<in> snd ` set example_income_report"
    by (simp add: example_income_report_def)
  have 3: "rows example_income_collapsed \<noteq> []"
    by (simp add: example_income_collapsed_def)
  have 4: "set columns_to_keep \<subseteq> set (columns example_sentinel_raw)"
    by (auto simp: example_sentinel_raw_def)
  from empty_result_behaviour[OF 4] example_sentinel_collapsed
  have 5: "pipeline example_sentinel_raw = Inl ValueError" by simp
  from empty_result_behaviour[OF 1] example_income_collapsed_eq example_income_pipeline
    1 2 3 4 5 example_sentinel_collapsed
  show ?thesis by simp
qed

section \<open>Re-application to the clean output\<close>

lemma coalition_collapse_fixpoint:
  assumes wf: "wf_dataframe d"
    and vp: "''VotedParty'' \<in> set (columns d)" and vc: "''VotedCoalition'' \<in> set (columns d)"
    and rows: "\<forall>r \<in> set (rows d). isin (row_get (columns d) r ''VotedParty'') party_codes \<and>
        row_get (columns d) r ''VotedCoalition'' =
          series_value (assign_target (row_get (columns d) r ''VotedParty''))"
  shows "coalition_collapse d = Inr d"
proof -
  let ?cols = "columns d"
  let ?f = "\<lambda>r. series_value (assign_target (row_get ?cols r ''VotedParty''))"
  have "filter (\<lambda>r. isin (row_get ?cols r ''VotedParty'') party_codes) (rows d) = rows d"
    by (rule filter_True) (use rows in blast)
  with vp have 1: "filter_isin ''VotedParty'' party_codes d = Inr d"
    by (simp add: filter_isin_def)
  have same: "map_row (\<lambda>c' x. if c' = ''VotedCoalition'' then ?f r else x) ?cols r = r"
    if r: "r \<in> set (rows d)" for r
  proof (rule map_row_id)
    show "length r = length ?cols" using wf r by (simp add: wf_dataframe_def)
  next
    fix c x assume "(c, x) \<in> set (zip ?cols r)"
    with wf have "row_get ?cols r c = x"
      by (auto simp: wf_dataframe_def intro: row_get_mem)
    with rows r show "(if c = ''VotedCoalition'' then ?f r else x) = x" by auto
  qed
  have "setitem ''VotedCoalition'' (map ?f (rows d)) d = d"
    by (simp add: setitem_existing[OF vc] same cong: map_cong)
  with vp have 2: "assign_coalition d = Inr d"
    by (simp add: assign_coalition_def)
  have "filter (\<lambda>r. \<forall>c \<in> set [''VotedCoalition'']. row_get ?cols r c \<noteq> NaN) (rows d) = rows d"
  proof (rule filter_True, rule ballI)
    fix r assume r: "r \<in> set (rows d)"
    with rows have "isin (row_get ?cols r ''VotedParty'') party_codes"
      and "row_get ?cols r ''VotedCoalition'' = ?f r" by auto
    with assign_target_party_codes[of "row_get ?cols r ''VotedParty''"]
    show "\<forall>c \<in> set [''VotedCoalition'']. row_get ?cols r c \<noteq> NaN" by auto
  qed
  with vc have 3: "dropna [''VotedCoalition''] d = Inr d"
    by (simp add: dropna_def)
  show ?thesis unfolding coalition_collapse_def by (simp add: 1 2 3)
qed

lemma no_source_column:
  "filter (\<lambda>c. c \<notin> set (renamed_columns @ [''VotedCoalition''])) columns_to_keep = columns_to_keep"
  by (simp add: renamed_columns_def columns_to_keep_def)

lemma pipeline_renamed_fails:
  assumes "columns d = renamed_columns @ [''VotedCoalition'']"
  shows "pipeline d = Inl (KeyError columns_to_keep)"
proof -
  have "\<not> set columns_to_keep \<subseteq> set (columns d)"
    unfolding assms by (simp add: renamed_columns_def columns_to_keep_def)
  then have "project_rename d = Inl (KeyError (filter (\<lambda>c. c \<notin> set (columns d)) columns_to_keep))"
    by (rule project_rename_Inl)
  also have "filter (\<lambda>c. c \<notin> set (columns d)) columns_to_keep = columns_to_keep"
    unfolding assms by (rule no_source_column)
  finally show ?thesis by (simp add: pipeline_def)
qed

text \<open>
  C9, as the code has it. On its own clean output the pipeline raises at its first
  statement, since the output carries the new column labels and the projection asks for
  the source labels. The stages after the projection do return the clean output
  unchanged: the coalition collapse, the sentinel translation (whose copy equals the
  table) and the completeness filter.
\<close>

theorem reapplication_to_clean_output:
  assumes "pipeline df = Inr (df_filtered, report)"
  shows "pipeline df_filtered = Inl (KeyError columns_to_keep) \<and>
         coalition_collapse df_filtered = Inr df_filtered \<and>
         sentinel_translation exclusion_rules 0 [df_filtered] = Inr (1, [df_filtered, df_filtered]) \<and>
         final_table (completeness_filter exclusion_rules df_filtered) = Some df_filtered \<and>
         final_table (and_then (coalition_collapse df_filtered)
                        (completeness_filter exclusion_rules)) = Some df_filtered"
proof -
  from assms obtain d where d: "collapsed df = Inr d"
    and cf: "completeness_filter exclusion_rules d = Inr (df_filtered, report)"
    by (auto simp: pipeline_Inr_iff)
  from completeness_filter_Inr[OF cf]
  have out: "df_filtered = d\<lparr>rows := filter (keeps exclusion_rules (columns d)) (rows d)\<rparr>"
    by simp
  have facts: "columns d = renamed_columns @ [''VotedCoalition''] \<and> length r = 18 \<and>
         isin (row_get (columns d) r ''VotedParty'') party_codes \<and>
         row_get (columns d) r ''VotedCoalition'' =
           series_value (assign_target (row_get (columns d) r ''VotedParty'')) \<and>
         keeps exclusion_rules (columns d) r"
    if "r \<in> set (rows df_filtered)" for r
  proof -
    from that have r: "r \<in> set (rows d)" and k: "keeps exclusion_rules (columns d) r"
      by (simp_all add: out)
    from collapsed_rows[OF d r] k show ?thesis by blast
  qed
  have cols: "columns df_filtered = renamed_columns @ [''VotedCoalition'']"
    using collapsed_Inr[of df] collapsed_Inl[of df] d
    by (cases "set columns_to_keep \<subseteq> set (columns df)") (auto simp: out)
  have cd: "columns df_filtered = columns d" by (simp add: out)
  have "\<forall>r \<in> set (rows df_filtered). length r = 18"
    using facts by blast
  then have wf: "wf_dataframe df_filtered"
    by (simp add: wf_dataframe_def cols distinct_renamed_columns vp_renamed
        length_renamed_columns)
  have 1: "pipeline df_filtered = Inl (KeyError columns_to_keep)"
    by (rule pipeline_renamed_fails[OF cols])
  have 2: "coalition_collapse df_filtered = Inr df_filtered"
  proof (rule coalition_collapse_fixpoint[OF wf])
    show "''VotedParty'' \<in> set (columns df_filtered)" by (simp add: cols vp_renamed)
    show "''VotedCoalition'' \<in> set (columns df_filtered)" by (simp add: cols)
    show "\<forall>r \<in> set (rows df_filtered).
        isin (row_get (columns df_filtered) r ''VotedParty'') party_codes \<and>
        row_get (columns df_filtered) r ''VotedCoalition'' =
          series_value (assign_target (row_get (columns df_filtered) r ''VotedParty''))"
      unfolding cd using facts by blast
  qed
  have keep: "\<forall>r \<in> set (rows df_filtered). keeps exclusion_rules (columns df_filtered) r"
    unfolding cd using facts by blast
  have ex: "fst ` set exclusion_rules \<subseteq> set (columns df_filtered)"
    using exclusion_rules_columns by (simp add: cols)
  have "sentinel_translation exclusion_rules 0 [df_filtered]
      = Inr (length [df_filtered], [df_filtered] @ [loop_table exclusion_rules ([df_filtered] ! 0)])"
    by (rule sentinel_translation_Inr) (use wf ex distinct_exclusion_rules in simp_all)
  then have 3: "sentinel_translation exclusion_rules 0 [df_filtered] = Inr (1, [df_filtered, df_filtered])"
    by (simp add: loop_table_keeps[OF wf keep])
  have "filter (keeps exclusion_rules (columns df_filtered)) (rows df_filtered) = rows df_filtered"
    by (rule filter_True) (use keep in blast)
  with ex have 4: "final_table (completeness_filter exclusion_rules df_filtered) = Some df_filtered"
    by (simp add: final_table_completeness_filter)
  from 2 4 have 5: "final_table (and_then (coalition_collapse df_filtered)
                        (completeness_filter exclusion_rules)) = Some df_filtered"
    by simp
  from 1 2 3 4 5 show ?thesis by blast
qed

theorem reapplication_to_clean_output_witness:
  "pipeline example_raw = Inr (example_clean, example_report) \<and>
   pipeline example_clean = Inl (KeyError columns_to_keep) \<and>
   coalition_collapse example_clean = Inr example_clean \<and>
   sentinel_translation exclusion_rules 0 [example_clean] = Inr (1, [example_clean, example_clean]) \<and>
   final_table (and_then (coalition_collapse example_clean)
                  (completeness_filter exclusion_rules)) = Some example_clean"
  using reapplication_to_clean_output[OF example_raw_pipeline] example_raw_pipeline
  by simp

text \<open>
  C9. The pipeline applied to the clean output of the sample does not return that table:
  it raises \<^verbatim>\<open>KeyError\<close> for all seventeen source labels.
\<close>

theorem pipeline_not_idempotent_counterexample:
  "pipeline example_raw = Inr (example_clean, example_report) \<and>
   pipeline example_clean = Inl (KeyError columns_to_keep) \<and>
   final_table (pipeline example_clean) \<noteq> Some example_clean"
proof -
  have "pipeline example_clean = Inl (KeyError columns_to_keep)"
    by code_simp
  with example_raw_pipeline show ?thesis by (simp add: final_table_def)
qed

end
